theory Spec2Isabelle
  imports Complex_Main
begin

section \<open>Platform values\<close>

text \<open>
  The chat room is a Cloudflare Durable Object written in TypeScript. Its own code is the
  class \<open>ChatRoom\<close> (\<open>fetch\<close>, \<open>handleSession\<close> with its three event listeners,
  \<open>broadcast\<close>, \<open>broadcastUserList\<close>). Everything it calls on the platform
  (\<open>JSON.parse\<close>, \<open>JSON.stringify\<close>, \<open>String.prototype.trim\<close>, \<open>WebSocket.send\<close>,
  \<open>new Date().toISOString()\<close>) is a parameter of the model, collected in the record
  \<open>runtime\<close>: every theorem below holds for every such platform. The Worker's entry
  point only hands upgrade requests on to the room; it is not modelled.

  A server-side socket is identified by the number of \<open>WebSocketPair\<close>s created before
  its own.
\<close>

type_synonym WebSocket = nat

text \<open>
  A JavaScript number is an IEEE double: every finite one is a rational; only its
  truthiness matters here (\<open>0\<close>, \<open>-0\<close> and \<open>NaN\<close> are falsy).
\<close>

datatype js_number = NaN | Infinity bool | Finite rat

text \<open>
  The values \<open>JSON.parse\<close> returns, and \<open>undefined\<close>, which reading an absent property
  gives. An object is the list of its own properties in insertion order; \<open>JSON.parse\<close>
  gives no property twice.
\<close>

datatype jsval =
    JUndefined
  | JNull
  | JBool bool
  | JNum js_number
  | JStr string
  | JArr "jsval list"
  | JObj "(string \<times> jsval) list"

datatype exn = SyntaxError | TypeError | SendError

text \<open>How a call ended: it returned, or it threw and nothing caught the exception.\<close>

datatype completion = Returned | Threw exn

text \<open>\<open>ToBoolean\<close>, as \<open>data.text\<close> is used in the condition \<open>data.type === 'message' && data.text\<close>.\<close>

fun truthy :: "jsval \<Rightarrow> bool" where
  "truthy JUndefined = False"
| "truthy JNull = False"
| "truthy (JBool b) = b"
| "truthy (JNum NaN) = False"
| "truthy (JNum (Infinity s)) = True"
| "truthy (JNum (Finite q)) = (q \<noteq> 0)"
| "truthy (JStr s) = (s \<noteq> [])"
| "truthy (JArr vs) = True"
| "truthy (JObj kvs) = True"

text \<open>
  The property reads \<open>data.type\<close>, \<open>data.text\<close> and \<open>data.id\<close>. Reading a property of
  \<open>null\<close> or \<open>undefined\<close> throws a TypeError (\<open>nullish\<close>). On any other value the read
  returns: on an object it gives the own property, and \<open>undefined\<close> when there is none
  (\<open>Object.prototype\<close> has no property of these three names); a boolean, a number, a string
  or an array has no property of these names either.
\<close>

fun nullish :: "jsval \<Rightarrow> bool" where
  "nullish JUndefined = True"
| "nullish JNull = True"
| "nullish v = False"

fun read_prop :: "jsval \<Rightarrow> string \<Rightarrow> jsval" where
  "read_prop (JObj kvs) p = (case map_of kvs p of None \<Rightarrow> JUndefined | Some v \<Rightarrow> v)"
| "read_prop v p = JUndefined"

text \<open>
  The platform. \<open>JSON_parse\<close> gives \<open>None\<close> where \<open>JSON.parse\<close> throws a SyntaxError.
  \<open>send_throws n ws\<close> says whether the call of \<open>ws.send\<close> made after \<open>n\<close> earlier calls of
  \<open>send\<close> throws; \<open>toISOString n\<close> is what the \<open>n\<close>-th evaluation of
  \<open>new Date().toISOString()\<close> returns (counted from 0).
\<close>

record runtime =
  JSON_parse :: "string \<Rightarrow> jsval option"
  JSON_stringify :: "jsval \<Rightarrow> string"
  String_trim :: "string \<Rightarrow> string"
  send_throws :: "nat \<Rightarrow> WebSocket \<Rightarrow> bool"
  toISOString :: "nat \<Rightarrow> string"

section \<open>The data of the chat room\<close>

text \<open>\<open>interface Session { webSocket: WebSocket; username: string; quit: boolean }\<close>\<close>

record Session =
  webSocket :: WebSocket
  username :: string
  quit :: bool

text \<open>
  One call of \<open>WebSocket.send\<close>, as the transport saw it: the socket, the text frame, and
  whether the call returned (\<open>accepted\<close>) or threw.
\<close>

record send_call =
  target :: WebSocket
  payload :: string
  accepted :: bool

text \<open>
  The state. \<open>sessions\<close> is the field \<open>this.sessions\<close>, a JavaScript \<open>Map\<close>: its entries in
  insertion order. The other fields are the surroundings: \<open>wire\<close> lists every call of
  \<open>send\<close> so far, oldest first; \<open>dates\<close> counts the evaluations of \<open>new Date()\<close>;
  \<open>listeners\<close> holds, for every socket \<open>handleSession\<close> has added its three listeners to,
  the \<open>username\<close> their closures captured; \<open>sockets\<close> counts the \<open>WebSocketPair\<close>s created.
\<close>

record world =
  sessions :: "(WebSocket \<times> Session) list"
  wire :: "send_call list"
  dates :: nat
  listeners :: "(WebSocket \<times> string) list"
  sockets :: nat

definition constructor :: world where
  "constructor = \<lparr>sessions = [], wire = [], dates = 0, listeners = [], sockets = 0\<rparr>"

text \<open>\<open>Map.prototype.set\<close>: an existing key keeps its place, a new key goes last.\<close>

definition Map_set :: "'k \<Rightarrow> 'v \<Rightarrow> ('k \<times> 'v) list \<Rightarrow> ('k \<times> 'v) list" where
  "Map_set k v m =
     (if k \<in> fst ` set m then map (\<lambda>(k', v'). if k' = k then (k', v) else (k', v')) m
      else m @ [(k, v)])"

text \<open>\<open>Map.prototype.delete\<close>: no effect when the key is absent.\<close>

definition Map_delete :: "'k \<Rightarrow> ('k \<times> 'v) list \<Rightarrow> ('k \<times> 'v) list" where
  "Map_delete k m = filter (\<lambda>(k', v'). k' \<noteq> k) m"

section \<open>The messages the server sends\<close>

text \<open>The object literals of the source, with their properties in the source's order.\<close>

definition ChatMessage :: "string \<Rightarrow> jsval \<Rightarrow> string \<Rightarrow> jsval" where
  "ChatMessage u t ts =
     JObj [(''type'', JStr ''message''), (''username'', JStr u), (''text'', t),
           (''timestamp'', JStr ts)]"

definition UserListMessage :: "string list \<Rightarrow> jsval" where
  "UserListMessage users = JObj [(''type'', JStr ''userList''), (''users'', JArr (map JStr users))]"

definition ErrorMessage :: jsval where
  "ErrorMessage = JObj [(''type'', JStr ''error''), (''message'', JStr ''Invalid message format'')]"

definition PongMessage :: "string \<Rightarrow> jsval \<Rightarrow> string \<Rightarrow> jsval" where
  "PongMessage ts i st =
     JObj [(''type'', JStr ''pong''), (''timestamp'', JStr ts), (''id'', i),
           (''serverTime'', JStr st)]"

section \<open>Sending\<close>

text \<open>
  \<open>socket.send(text)\<close> after the calls \<open>out\<close>: the call is recorded on the wire; the result
  says whether it threw.
\<close>

definition send :: "runtime \<Rightarrow> WebSocket \<Rightarrow> string \<Rightarrow> send_call list \<Rightarrow> bool \<times> send_call list" where
  "send rt ws text out =
     (let threw = send_throws rt (length out) ws
      in (threw, out @ [\<lparr>target = ws, payload = text, accepted = \<not> threw\<rparr>]))"

definition WebSocket_send :: "runtime \<Rightarrow> WebSocket \<Rightarrow> string \<Rightarrow> world \<Rightarrow> completion \<times> world" where
  "WebSocket_send rt ws text st =
     (let (threw, out) = send rt ws text (wire st)
      in (if threw then Threw SendError else Returned, st\<lparr>wire := out\<rparr>))"

text \<open>\<open>new Date().toISOString()\<close>\<close>

definition new_Date :: "runtime \<Rightarrow> world \<Rightarrow> string \<times> world" where
  "new_Date rt st = (toISOString rt (dates st), st\<lparr>dates := Suc (dates st)\<rparr>)"

text \<open>
  The first loop of \<open>broadcast\<close>:
  \<^verbatim>\<open>this.sessions.forEach((session) => {
      try { session.webSocket.send(messageStr) } catch (err) { session.quit = true } })\<close>
  It returns the entries, those whose send threw now marked, and the wire.
\<close>

fun send_each ::
  "runtime \<Rightarrow> string \<Rightarrow> (WebSocket \<times> Session) list \<Rightarrow> send_call list
     \<Rightarrow> (WebSocket \<times> Session) list \<times> send_call list" where
  "send_each rt messageStr [] out = ([], out)"
| "send_each rt messageStr ((ws, session) # rest) out =
     (let (threw, out') = send rt (webSocket session) messageStr out;
          session' = (if threw then session\<lparr>quit := True\<rparr> else session);
          (rest', out'') = send_each rt messageStr rest out'
      in ((ws, session') # rest', out''))"

text \<open>
  The second loop of \<open>broadcast\<close>:
  \<^verbatim>\<open>this.sessions.forEach((session, ws) => { if (session.quit) { this.sessions.delete(ws) } })\<close>
  \<open>forEach\<close> visits every entry once, in order; deleting the entry being visited does not
  disturb the visit of the later ones.
\<close>

definition sweep :: "(WebSocket \<times> Session) list \<Rightarrow> (WebSocket \<times> Session) list" where
  "sweep m = fold (\<lambda>(ws, session) acc. if quit session then Map_delete ws acc else acc) m m"

definition broadcast :: "runtime \<Rightarrow> jsval \<Rightarrow> world \<Rightarrow> world" where
  "broadcast rt message st =
     (let messageStr = JSON_stringify rt message;
          (marked, out) = send_each rt messageStr (sessions st) (wire st)
      in st\<lparr>sessions := sweep marked, wire := out\<rparr>)"

text \<open>The list \<open>users\<close> that \<open>broadcastUserList\<close> computes.\<close>

definition roster :: "world \<Rightarrow> string list" where
  "roster st = map username (filter (\<lambda>s. \<not> quit s) (map snd (sessions st)))"

definition broadcastUserList :: "runtime \<Rightarrow> world \<Rightarrow> world" where
  "broadcastUserList rt st = (let users = roster st in broadcast rt (UserListMessage users) st)"

section \<open>Admission\<close>

text \<open>
  What \<open>fetch\<close> reads of a request: the header \<open>Upgrade\<close> and the query parameter
  \<open>username\<close> (\<open>None\<close> is JavaScript's \<open>null\<close>). What it answers: the status and the body.
\<close>

record Request =
  Upgrade :: "string option"
  username_param :: "string option"

datatype Response = Response nat "string option"

text \<open>
  \<open>handleSession(webSocket, username)\<close>. The three listeners close over \<open>webSocket\<close>,
  \<open>username\<close> and the object \<open>session\<close>, whose \<open>username\<close> is never assigned again: the
  entry of \<open>listeners\<close> stands for the three of them.
\<close>

definition handleSession :: "runtime \<Rightarrow> WebSocket \<Rightarrow> string \<Rightarrow> world \<Rightarrow> world" where
  "handleSession rt ws name st =
     (let session = \<lparr>webSocket = ws, username = name, quit = False\<rparr>;
          st1 = st\<lparr>sessions := Map_set ws session (sessions st)\<rparr>;
          st2 = broadcastUserList rt st1;
          (now, st3) = new_Date rt st2;
          st4 = broadcast rt (ChatMessage ''System'' (JStr (name @ '' joined the chat'')) now) st3
      in st4\<lparr>listeners := listeners st4 @ [(ws, name)]\<rparr>)"

text \<open>
  \<open>fetch(request)\<close>. \<open>!upgradeHeader || upgradeHeader !== 'websocket'\<close> holds unless the
  header is exactly \<open>websocket\<close>; \<open>!username\<close> holds for \<open>null\<close> and for the empty string.
  The server end of the new \<open>WebSocketPair\<close> is the socket numbered \<open>sockets st\<close>.
\<close>

definition fetch :: "runtime \<Rightarrow> Request \<Rightarrow> world \<Rightarrow> Response \<times> world" where
  "fetch rt request st =
     (if Upgrade request \<noteq> Some ''websocket'' then (Response 426 (Some ''Expected WebSocket''), st)
      else case username_param request of
        None \<Rightarrow> (Response 400 (Some ''Username is required''), st)
      | Some name \<Rightarrow>
          if name = [] \<or> length (String_trim rt name) = 0
          then (Response 400 (Some ''Username is required''), st)
          else let server = sockets st;
                   st' = st\<lparr>sockets := Suc (sockets st)\<rparr>
               in (Response 101 None, handleSession rt server (String_trim rt name) st'))"

section \<open>The listeners\<close>

text \<open>\<open>msg.data\<close> of a message event: a string for a text frame, an \<open>ArrayBuffer\<close> otherwise.\<close>

datatype MessageData = TextFrame string | BinaryFrame "nat list"

text \<open>
  The \<open>try\<close> block of the message listener, for a text frame. It returns how it ended;
  the state holds what it did before it ended. The first read, \<open>data.type\<close>, throws when
  \<open>data\<close> is \<open>null\<close>; the later reads are of the same \<open>data\<close> and return. In the
  \<open>message\<close> literal \<open>session.username\<close> is the captured \<open>username\<close>. In the \<open>pong\<close>
  literal the two dates are evaluated in the order of the properties; \<open>data.id\<close>, between
  them, changes nothing.
\<close>

definition try_block :: "runtime \<Rightarrow> WebSocket \<Rightarrow> string \<Rightarrow> string \<Rightarrow> world \<Rightarrow> completion \<times> world" where
  "try_block rt ws name text st =
     (case JSON_parse rt text of
        None \<Rightarrow> (Threw SyntaxError, st)
      | Some data \<Rightarrow>
          if nullish data then (Threw TypeError, st)
          else if read_prop data ''type'' = JStr ''message'' \<and> truthy (read_prop data ''text'')
          then (let (now, st1) = new_Date rt st
                in (Returned, broadcast rt (ChatMessage name (read_prop data ''text'') now) st1))
          else if read_prop data ''type'' = JStr ''ping''
          then (let (now1, st1) = new_Date rt st;
                    (now2, st2) = new_Date rt st1
                in WebSocket_send rt ws (JSON_stringify rt (PongMessage now1 (read_prop data ''id'') now2)) st2)
          else (Returned, st))"

text \<open>
  The message listener: a frame that is not a string is skipped; whatever the \<open>try\<close> block
  throws is caught, and the \<open>catch\<close> block sends the error message, outside any \<open>try\<close>:
  if that call of \<open>send\<close> throws, the listener ends with the exception.
\<close>

definition on_message :: "runtime \<Rightarrow> WebSocket \<Rightarrow> string \<Rightarrow> MessageData \<Rightarrow> world \<Rightarrow> completion \<times> world" where
  "on_message rt ws name msg_data st =
     (case msg_data of
        BinaryFrame bytes \<Rightarrow> (Returned, st)
      | TextFrame text \<Rightarrow>
          (case try_block rt ws name text st of
             (Returned, st') \<Rightarrow> (Returned, st')
           | (Threw err, st') \<Rightarrow> WebSocket_send rt ws (JSON_stringify rt ErrorMessage) st'))"

text \<open>
  \<open>session.quit = true\<close> in the close and error listeners writes to the object the listener
  closed over, which is the value the registry holds under the key \<open>webSocket\<close>, if any.
\<close>

definition mark_quit :: "WebSocket \<Rightarrow> (WebSocket \<times> Session) list \<Rightarrow> (WebSocket \<times> Session) list" where
  "mark_quit ws m = map (\<lambda>(k, session). if k = ws then (k, session\<lparr>quit := True\<rparr>) else (k, session)) m"

definition on_close :: "runtime \<Rightarrow> WebSocket \<Rightarrow> string \<Rightarrow> world \<Rightarrow> world" where
  "on_close rt ws name st =
     (let st1 = st\<lparr>sessions := Map_delete ws (mark_quit ws (sessions st))\<rparr>;
          st2 = broadcastUserList rt st1;
          (now, st3) = new_Date rt st2
      in broadcast rt (ChatMessage ''System'' (JStr (name @ '' left the chat'')) now) st3)"

definition on_error :: "runtime \<Rightarrow> WebSocket \<Rightarrow> world \<Rightarrow> world" where
  "on_error rt ws st =
     (let st1 = st\<lparr>sessions := Map_delete ws (mark_quit ws (sessions st))\<rparr>
      in broadcastUserList rt st1)"

section \<open>The room as a state machine\<close>

text \<open>
  The events a room reacts to, one at a time: a request, and the three events of a socket,
  which reach the listeners \<open>handleSession\<close> added, if it added any.
\<close>

datatype event =
    Fetch Request
  | Message WebSocket MessageData
  | Close WebSocket
  | Error WebSocket

fun react :: "runtime \<Rightarrow> world \<Rightarrow> event \<Rightarrow> world" where
  "react rt st (Fetch request) = snd (fetch rt request st)"
| "react rt st (Message ws msg_data) =
     (case map_of (listeners st) ws of
        None \<Rightarrow> st
      | Some name \<Rightarrow> snd (on_message rt ws name msg_data st))"
| "react rt st (Close ws) =
     (case map_of (listeners st) ws of None \<Rightarrow> st | Some name \<Rightarrow> on_close rt ws name st)"
| "react rt st (Error ws) =
     (case map_of (listeners st) ws of None \<Rightarrow> st | Some name \<Rightarrow> on_error rt ws st)"

definition run :: "runtime \<Rightarrow> event list \<Rightarrow> world" where
  "run rt events = foldl (react rt) constructor events"

text \<open>
  The events whose reaction calls \<open>send\<close> through \<open>broadcast\<close> only: a request, a close
  signal, an error signal, and a frame that the message listener relays. Any other frame
  is answered, if at all, by a call of \<open>send\<close> on its own socket, outside \<open>broadcast\<close>.
\<close>

fun relays :: "runtime \<Rightarrow> event \<Rightarrow> bool" where
  "relays rt (Message ws (TextFrame text)) =
     (case JSON_parse rt text of
        None \<Rightarrow> False
      | Some data \<Rightarrow> read_prop data ''type'' = JStr ''message'' \<and> truthy (read_prop data ''text''))"
| "relays rt (Message ws (BinaryFrame bytes)) = False"
| "relays rt ev = True"

section \<open>A sample platform and sample rooms\<close>

text \<open>
  The theorems below hold for every platform. To evaluate them at concrete inputs, here is
  one platform. Its \<open>sample_stringify\<close> prints what \<open>JSON.stringify\<close> prints for every
  value made of \<open>null\<close>, booleans, arrays, objects and strings of printable ASCII characters
  (a property whose value is \<open>undefined\<close> is left out, \<open>undefined\<close> in an array is printed
  as \<open>null\<close>); a number is printed as \<open>0\<close>, and no example below holds one. Its
  \<open>sample_parse\<close> knows the five JSON texts the examples send and takes every other text
  for unparsable, as \<open>JSON.parse\<close> does for the two other texts the examples send,
  \<open>hello\<close> and the truncated object \<open>{"type":\<close>. Its \<open>sample_trim\<close> removes the ASCII white space at both ends. On
  this platform every \<open>send\<close> on socket 2 throws, and no other does.
\<close>

fun quote_body :: "string \<Rightarrow> string" where
  "quote_body [] = []"
| "quote_body (c # cs) =
     (if c = CHR 0x22 \<or> c = CHR 0x5C then CHR 0x5C # c # quote_body cs else c # quote_body cs)"

definition quote :: "string \<Rightarrow> string" where
  "quote s = CHR 0x22 # quote_body s @ [CHR 0x22]"

fun commas :: "string list \<Rightarrow> string" where
  "commas [] = []"
| "commas [x] = x"
| "commas (x # y # zs) = x @ '','' @ commas (y # zs)"

fun sample_stringify :: "jsval \<Rightarrow> string" where
  "sample_stringify JUndefined = ''null''"
| "sample_stringify JNull = ''null''"
| "sample_stringify (JBool b) = (if b then ''true'' else ''false'')"
| "sample_stringify (JNum n) = ''0''"
| "sample_stringify (JStr s) = quote s"
| "sample_stringify (JArr vs) = ''['' @ commas (map sample_stringify vs) @ '']''"
| "sample_stringify (JObj kvs) =
     ''{'' @ commas (map (\<lambda>(k, v). quote k @ '':'' @ sample_stringify v)
                        (filter (\<lambda>(k, v). v \<noteq> JUndefined) kvs)) @ ''}''"

definition sample_parse :: "string \<Rightarrow> jsval option" where
  \<open>sample_parse text =
     (if text = ''{"type":"message","text":"hi"}''
      then Some (JObj [(''type'', JStr ''message''), (''text'', JStr ''hi'')])
      else if text = ''{"type":"ping","id":"abc"}''
      then Some (JObj [(''type'', JStr ''ping''), (''id'', JStr ''abc'')])
      else if text = ''{"type":"typing"}''
      then Some (JObj [(''type'', JStr ''typing'')])
      else if text = ''{"type":"message","text":[]}''
      then Some (JObj [(''type'', JStr ''message''), (''text'', JArr [])])
      else if text = ''null''
      then Some JNull
      else None)\<close>

definition sample_trim :: "string \<Rightarrow> string" where
  "sample_trim s =
     (let blank = (\<lambda>c. c \<in> {CHR '' '', CHR 0x09, CHR 0x0A, CHR 0x0B, CHR 0x0C, CHR 0x0D})
      in rev (dropWhile blank (rev (dropWhile blank s))))"

definition sample_clock :: "nat \<Rightarrow> string" where
  "sample_clock n =
     (if n = 0 then ''2024-01-01T00:00:00.000Z''
      else if n = 1 then ''2024-01-01T00:00:00.001Z''
      else ''2024-01-01T00:00:00.002Z'')"

definition sample_runtime :: runtime where
  "sample_runtime =
     \<lparr>JSON_parse = sample_parse, JSON_stringify = sample_stringify, String_trim = sample_trim,
      send_throws = (\<lambda>n ws. ws = 2), toISOString = sample_clock\<rparr>"

text \<open>
  A room with alice on socket 0 and bob on socket 1; the same room with carol on socket 2,
  whose \<open>send\<close> throws on the sample platform.
\<close>

definition lobby :: world where
  "lobby =
     \<lparr>sessions = [(0, \<lparr>webSocket = 0, username = ''alice'', quit = False\<rparr>),
                  (1, \<lparr>webSocket = 1, username = ''bob'', quit = False\<rparr>)],
      wire = [], dates = 0, listeners = [(0, ''alice''), (1, ''bob'')], sockets = 2\<rparr>"

definition crowd :: world where
  "crowd =
     \<lparr>sessions = [(0, \<lparr>webSocket = 0, username = ''alice'', quit = False\<rparr>),
                  (1, \<lparr>webSocket = 1, username = ''bob'', quit = False\<rparr>),
                  (2, \<lparr>webSocket = 2, username = ''carol'', quit = False\<rparr>)],
      wire = [], dates = 0, listeners = [(0, ''alice''), (1, ''bob''), (2, ''carol'')],
      sockets = 3\<rparr>"

definition upgrade_request :: "string \<Rightarrow> Request" where
  "upgrade_request name = \<lparr>Upgrade = Some ''websocket'', username_param = Some name\<rparr>"

text \<open>The events that fill the lobby: alice arrives, her name padded with spaces, then bob.\<close>

definition two_arrivals :: "event list" where
  "two_arrivals = [Fetch (upgrade_request ''  alice ''), Fetch (upgrade_request ''bob'')]"

section \<open>Invariants of the room\<close>

text \<open>
  What holds of the registry between any two steps of the room: no key twice (it is a
  \<open>Map\<close>), every session stored under its own socket, none marked, and every socket one
  that \<open>fetch\<close> has created.
\<close>

definition registry_ok :: "world \<Rightarrow> bool" where
  "registry_ok st \<longleftrightarrow>
     distinct (map fst (sessions st)) \<and>
     list_all (\<lambda>(ws, session). webSocket session = ws \<and> \<not> quit session \<and> ws < sockets st)
       (sessions st)"

text \<open>
  What holds of the listeners between any two events: they sit on sockets that \<open>fetch\<close> has
  created, and the listeners of a registered socket captured the \<open>username\<close> of its session.
\<close>

definition listeners_ok :: "world \<Rightarrow> bool" where
  "listeners_ok st \<longleftrightarrow>
     list_all (\<lambda>(ws, name). ws < sockets st) (listeners st) \<and>
     list_all (\<lambda>(ws, session). map_of (listeners st) ws = Some (username session)) (sessions st)"

section \<open>What a broadcast does\<close>

text \<open>
  The first loop calls \<open>send\<close> once per entry, in the order of the entries, each time with
  the same text; it changes no key, and marks exactly the entries whose call threw.
\<close>

lemma send_each_wire:
  "snd (send_each rt p ss out) =
     out @ map (\<lambda>(n, e). \<lparr>target = webSocket (snd e), payload = p,
                           accepted = \<not> send_throws rt n (webSocket (snd e))\<rparr>)
               (enumerate (length out) ss)"
proof (induction ss arbitrary: out)
  case Nil
  then show ?case by simp
next
  case (Cons e ss)
  obtain k s where e: "e = (k, s)" by (cases e)
  show ?case
    using Cons.IH [of "out @ [\<lparr>target = webSocket s, payload = p,
                                accepted = \<not> send_throws rt (length out) (webSocket s)\<rparr>]"]
    by (auto simp: e send_def Let_def split: prod.splits)
qed

lemma send_each_marked:
  "fst (send_each rt p ss out) =
     map (\<lambda>(n, e). (fst e, if send_throws rt n (webSocket (snd e)) then (snd e)\<lparr>quit := True\<rparr> else snd e))
         (enumerate (length out) ss)"
proof (induction ss arbitrary: out)
  case Nil
  then show ?case by simp
next
  case (Cons e ss)
  obtain k s where e: "e = (k, s)" by (cases e)
  show ?case
    using Cons.IH [of "out @ [\<lparr>target = webSocket s, payload = p,
                                accepted = \<not> send_throws rt (length out) (webSocket s)\<rparr>]"]
    by (auto simp: e send_def Let_def split: prod.splits)
qed

text \<open>The second loop removes every key that some marked entry has, and nothing else.\<close>

lemma fold_delete:
  "fold (\<lambda>(ws, session) acc. if quit session then Map_delete ws acc else acc) xs acc =
     filter (\<lambda>e. fst e \<notin> fst ` {x \<in> set xs. quit (snd x)}) acc"
proof (induction xs arbitrary: acc)
  case Nil
  then show ?case by simp
next
  case (Cons x xs)
  obtain k s where x: "x = (k, s)" by (cases x)
  have keys: "fst ` {y \<in> set (x # xs). quit (snd y)} =
      (if quit s then insert k (fst ` {y \<in> set xs. quit (snd y)}) else fst ` {y \<in> set xs. quit (snd y)})"
    by (force simp: x)
  show ?case
    unfolding keys
    by (auto simp: x Cons.IH Map_delete_def intro!: filter_cong)
qed

lemma sweep_filter:
  "sweep m = filter (\<lambda>e. fst e \<notin> fst ` {x \<in> set m. quit (snd x)}) m"
  by (simp add: sweep_def fold_delete)

lemma sweep_distinct:
  assumes "distinct (map fst m)"
  shows "sweep m = filter (\<lambda>e. \<not> quit (snd e)) m"
  unfolding sweep_filter
proof (rule filter_cong [OF refl])
  fix e assume e: "e \<in> set m"
  have "fst e \<in> fst ` {x \<in> set m. quit (snd x)} \<longleftrightarrow> quit (snd e)"
  proof
    assume "fst e \<in> fst ` {x \<in> set m. quit (snd x)}"
    then obtain x where x: "x \<in> set m" "quit (snd x)" "fst x = fst e" by auto
    from assms x(1) e x(3) have "x = e"
      by (metis eq_key_imp_eq_value prod.collapse)
    with x(2) show "quit (snd e)" by simp
  next
    assume "quit (snd e)"
    with e show "fst e \<in> fst ` {x \<in> set m. quit (snd x)}" by auto
  qed
  then show "(fst e \<notin> fst ` {x \<in> set m. quit (snd x)}) = (\<not> quit (snd e))" by simp
qed

lemma sweep_no_quit: "e \<in> set (sweep m) \<Longrightarrow> \<not> quit (snd e)"
  by (auto simp: sweep_filter)

lemma sweep_subset: "set (sweep m) \<subseteq> set m"
  by (auto simp: sweep_filter)

lemma sweep_removes: "(k, s) \<in> set m \<Longrightarrow> quit s \<Longrightarrow> k \<notin> fst ` set (sweep m)"
  by (force simp: sweep_filter)


lemma map_enumerate_snd: "map (\<lambda>(n, e). f e) (enumerate k xs) = map f xs"
  by (induction xs arbitrary: k) simp_all

lemma wire_broadcast:
  "wire (broadcast rt message st) =
     wire st @ map (\<lambda>(n, e). \<lparr>target = webSocket (snd e), payload = JSON_stringify rt message,
                                accepted = \<not> send_throws rt n (webSocket (snd e))\<rparr>)
                   (enumerate (length (wire st)) (sessions st))"
  by (simp add: broadcast_def Let_def case_prod_unfold send_each_wire)

lemma sessions_broadcast:
  "sessions (broadcast rt message st) =
     sweep (map (\<lambda>(n, e). (fst e, if send_throws rt n (webSocket (snd e)) then (snd e)\<lparr>quit := True\<rparr> else snd e))
                (enumerate (length (wire st)) (sessions st)))"
  by (simp add: broadcast_def Let_def case_prod_unfold send_each_marked)

lemma broadcast_frame [simp]:
  "dates (broadcast rt message st) = dates st"
  "listeners (broadcast rt message st) = listeners st"
  "sockets (broadcast rt message st) = sockets st"
  by (simp_all add: broadcast_def Let_def case_prod_unfold)

lemma broadcast_no_quit: "e \<in> set (sessions (broadcast rt message st)) \<Longrightarrow> \<not> quit (snd e)"
  by (simp add: sessions_broadcast sweep_no_quit)

lemma targets_broadcast:
  "map target (drop (length (wire st)) (wire (broadcast rt message st))) =
     map (\<lambda>e. webSocket (snd e)) (sessions st)"
  using map_enumerate_snd [of "\<lambda>e. webSocket (snd e)" "length (wire st)" "sessions st"]
  by (simp add: wire_broadcast case_prod_unfold comp_def)

lemma payloads_broadcast:
  "map payload (drop (length (wire st)) (wire (broadcast rt message st))) =
     replicate (length (sessions st)) (JSON_stringify rt message)"
  by (simp add: wire_broadcast case_prod_unfold comp_def map_replicate_const)


lemma map_enumerate_cong:
  "list_all (\<lambda>(n, e). f n e = g e) (enumerate k xs) \<Longrightarrow> map (\<lambda>(n, e). f n e) (enumerate k xs) = map g xs"
  by (induction xs arbitrary: k) simp_all

text \<open>
  Claim C3. When no call of \<open>send\<close> throws during a broadcast over a registry of N
  sessions, the broadcast makes exactly N calls of \<open>send\<close>, one per session in the order
  of the registry, and every call carries the same text, the one serialization of the
  message. The hypothesis says that the call made for each entry, the \<open>n\<close>-th call overall,
  does not throw.
\<close>

theorem broadcast_sends_one_payload_to_each_session:
  assumes "list_all (\<lambda>(n, e). \<not> send_throws rt n (webSocket (snd e)))
             (enumerate (length (wire st)) (sessions st))"
  shows "drop (length (wire st)) (wire (broadcast rt message st)) =
           map (\<lambda>(ws, session). \<lparr>target = webSocket session, payload = JSON_stringify rt message,
                                    accepted = True\<rparr>) (sessions st)
         \<and> length (wire (broadcast rt message st)) = length (wire st) + length (sessions st)"
proof -
  have "list_all (\<lambda>(n, e). \<lparr>target = webSocket (snd e), payload = JSON_stringify rt message,
                                accepted = \<not> send_throws rt n (webSocket (snd e))\<rparr> =
                            (case e of (ws, session) \<Rightarrow> \<lparr>target = webSocket session,
                                payload = JSON_stringify rt message, accepted = True\<rparr>))
          (enumerate (length (wire st)) (sessions st))"
    using assms by (auto simp: list_all_iff)
  from map_enumerate_cong [OF this] show ?thesis
    by (simp add: wire_broadcast)
qed

text \<open>In the lobby no send throws, and the roster goes once to alice and once to bob.\<close>

theorem broadcast_sends_one_payload_to_each_session_witness:
  "list_all (\<lambda>(n, e). \<not> send_throws sample_runtime n (webSocket (snd e)))
     (enumerate (length (wire lobby)) (sessions lobby))
   \<and> wire (broadcast sample_runtime (UserListMessage [''alice'', ''bob'']) lobby) =
       [\<lparr>target = 0, payload = JSON_stringify sample_runtime (UserListMessage [''alice'', ''bob'']), accepted = True\<rparr>,
        \<lparr>target = 1, payload = JSON_stringify sample_runtime (UserListMessage [''alice'', ''bob'']), accepted = True\<rparr>]"
proof -
  have h: "list_all (\<lambda>(n, e). \<not> send_throws sample_runtime n (webSocket (snd e)))
     (enumerate (length (wire lobby)) (sessions lobby))"
    by (simp add: lobby_def sample_runtime_def)
  from broadcast_sends_one_payload_to_each_session [OF h, of "UserListMessage [''alice'', ''bob'']"] h
  show ?thesis
    by (simp add: lobby_def)
qed


section \<open>What the message listener does\<close>

text \<open>The state after one call of \<open>send\<close>, and after the \<open>catch\<close> block.\<close>

lemma WebSocket_send_eq:
  "WebSocket_send rt ws text st =
     (if send_throws rt (length (wire st)) ws then Threw SendError else Returned,
      st\<lparr>wire := wire st @ [\<lparr>target = ws, payload = text,
                                 accepted = \<not> send_throws rt (length (wire st)) ws\<rparr>]\<rparr>)"
  by (simp add: WebSocket_send_def send_def Let_def)

lemma on_message_unparsable:
  assumes "JSON_parse rt text = None"
  shows "on_message rt ws name (TextFrame text) st =
           WebSocket_send rt ws (JSON_stringify rt ErrorMessage) st"
  using assms by (simp add: on_message_def try_block_def)

lemma on_message_binary: "on_message rt ws name (BinaryFrame bytes) st = (Returned, st)"
  by (simp add: on_message_def)

text \<open>
  Claim C1, as amended. A text frame that \<open>JSON.parse\<close> rejects makes the listener call
  \<open>send\<close> exactly once, on the socket the frame came from, with the serialized error
  message, and leaves the registry as it was. A frame that is not text makes it do nothing:
  no call of \<open>send\<close>, no change of the state.
\<close>

theorem unparsable_text_gets_one_error_reply:
  assumes "JSON_parse rt text = None"
  shows "wire (snd (on_message rt ws name (TextFrame text) st)) =
           wire st @ [\<lparr>target = ws, payload = JSON_stringify rt ErrorMessage,
                        accepted = \<not> send_throws rt (length (wire st)) ws\<rparr>]
         \<and> sessions (snd (on_message rt ws name (TextFrame text) st)) = sessions st
         \<and> on_message rt ws name (BinaryFrame bytes) st = (Returned, st)"
  using assms by (simp add: on_message_unparsable on_message_binary WebSocket_send_eq)

text \<open>In the lobby, alice sends the text \<open>hello\<close>.\<close>

theorem unparsable_text_gets_one_error_reply_witness:
  \<open>JSON_parse sample_runtime ''hello'' = None
   \<and> wire (snd (on_message sample_runtime 0 ''alice'' (TextFrame ''hello'') lobby)) =
       [\<lparr>target = 0, payload = ''{"type":"error","message":"Invalid message format"}'',
         accepted = True\<rparr>]
   \<and> map fst (sessions (snd (on_message sample_runtime 0 ''alice'' (TextFrame ''hello'') lobby))) = [0, 1]\<close>
proof -
  have h: "JSON_parse sample_runtime ''hello'' = None"
    by (simp add: sample_runtime_def sample_parse_def)
  from unparsable_text_gets_one_error_reply [OF h, of 0 "''alice''" lobby] h
  show ?thesis
    by (simp add: lobby_def sample_runtime_def ErrorMessage_def quote_def)
qed

text \<open>
  The claim as it was stated fails for a frame that is not text: alice sends a binary frame
  and no call of \<open>send\<close> is made at all, so she gets no error message.
\<close>

theorem binary_frame_gets_no_reply:
  "wire (snd (on_message sample_runtime 0 ''alice'' (BinaryFrame [104, 105]) lobby)) = []"
  by (simp add: on_message_def lobby_def)

text \<open>
  Claim C10. Two text frames that \<open>JSON.parse\<close> rejects have the same effect, whatever
  they hold: the listener ends the same way in the same state, and the one text it sends is
  the serialization of the constant object with the message \<open>Invalid message format\<close>.
\<close>

theorem error_reply_ignores_the_frame:
  assumes "JSON_parse rt text1 = None" and "JSON_parse rt text2 = None"
  shows "on_message rt ws name (TextFrame text1) st = on_message rt ws name (TextFrame text2) st
         \<and> map payload (drop (length (wire st)) (wire (snd (on_message rt ws name (TextFrame text1) st)))) =
             [JSON_stringify rt (JObj [(''type'', JStr ''error''),
                                       (''message'', JStr ''Invalid message format'')])]"
  using assms by (simp add: on_message_unparsable WebSocket_send_eq ErrorMessage_def)

text \<open>In the lobby, bob sends \<open>hello\<close>, or an object cut short.\<close>

theorem error_reply_ignores_the_frame_witness:
  \<open>JSON_parse sample_runtime ''hello'' = None \<and> JSON_parse sample_runtime ''{"type":'' = None
   \<and> on_message sample_runtime 1 ''bob'' (TextFrame ''hello'') lobby =
       on_message sample_runtime 1 ''bob'' (TextFrame ''{"type":'') lobby
   \<and> map payload (wire (snd (on_message sample_runtime 1 ''bob'' (TextFrame ''hello'') lobby))) =
       [''{"type":"error","message":"Invalid message format"}'']\<close>
proof -
  have h1: "JSON_parse sample_runtime ''hello'' = None"
    by (simp add: sample_runtime_def sample_parse_def)
  have h2: \<open>JSON_parse sample_runtime ''{"type":'' = None\<close>
    by (simp add: sample_runtime_def sample_parse_def)
  note same = error_reply_ignores_the_frame [OF h1 h2, of 1 "''bob''" lobby]
  have sent: \<open>map payload (wire (snd (on_message sample_runtime 1 ''bob'' (TextFrame ''hello'') lobby))) =
       [''{"type":"error","message":"Invalid message format"}'']\<close>
    using same [THEN conjunct2] by (simp add: lobby_def sample_runtime_def quote_def)
  from h1 h2 same sent show ?thesis
    by blast
qed


lemma ping_not_nullish: "read_prop data ''type'' = JStr t \<Longrightarrow> \<not> nullish data"
  by (cases data) simp_all

lemma on_message_chat:
  assumes "JSON_parse rt text = Some data"
    and "read_prop data ''type'' = JStr ''message''"
    and "truthy (read_prop data ''text'')"
  shows "on_message rt ws name (TextFrame text) st =
           (Returned, broadcast rt (ChatMessage name (read_prop data ''text'') (toISOString rt (dates st)))
                        (st\<lparr>dates := Suc (dates st)\<rparr>))"
  using assms ping_not_nullish [of data "''message''"]
  by (simp add: on_message_def try_block_def new_Date_def)

lemma on_message_ping:
  assumes "JSON_parse rt text = Some data" and "read_prop data ''type'' = JStr ''ping''"
  shows "on_message rt ws name (TextFrame text) st =
           (case WebSocket_send rt ws
                   (JSON_stringify rt (PongMessage (toISOString rt (dates st)) (read_prop data ''id'')
                                         (toISOString rt (Suc (dates st)))))
                   (st\<lparr>dates := Suc (Suc (dates st))\<rparr>) of
              (Returned, st') \<Rightarrow> (Returned, st')
            | (Threw err, st') \<Rightarrow> WebSocket_send rt ws (JSON_stringify rt ErrorMessage) st')"
  using assms ping_not_nullish [of data "''ping''"]
  by (simp add: on_message_def try_block_def new_Date_def)

text \<open>
  Claim C8. A text frame that parses to a value whose \<open>type\<close> is \<open>ping\<close> makes the listener
  call \<open>send\<close> on the socket the frame came from, with the serialized \<open>pong\<close> that holds the
  frame's \<open>id\<close> as it was read and two dates of the server. That is the one \<open>pong\<close>; no call
  is made on any other socket, and the registry is not touched, so no broadcast takes part.
  Only if that call throws, the \<open>catch\<close> block makes a second call on the same socket,
  with the error message.
\<close>

theorem ping_gets_one_pong_on_its_own_socket:
  assumes "JSON_parse rt text = Some data" and "read_prop data ''type'' = JStr ''ping''"
  shows "wire (snd (on_message rt ws name (TextFrame text) st)) =
           wire st @
           \<lparr>target = ws,
            payload = JSON_stringify rt (PongMessage (toISOString rt (dates st)) (read_prop data ''id'')
                                           (toISOString rt (Suc (dates st)))),
            accepted = \<not> send_throws rt (length (wire st)) ws\<rparr> #
           (if send_throws rt (length (wire st)) ws
            then [\<lparr>target = ws, payload = JSON_stringify rt ErrorMessage,
                   accepted = \<not> send_throws rt (Suc (length (wire st))) ws\<rparr>]
            else [])
         \<and> sessions (snd (on_message rt ws name (TextFrame text) st)) = sessions st"
  by (simp add: on_message_ping [OF assms] WebSocket_send_eq)

text \<open>
  In the crowd, alice sends a ping with the id \<open>abc\<close>; so does carol, on whose socket
  every send throws.
\<close>

theorem ping_gets_one_pong_on_its_own_socket_witness:
  \<open>JSON_parse sample_runtime ''{"type":"ping","id":"abc"}'' =
       Some (JObj [(''type'', JStr ''ping''), (''id'', JStr ''abc'')])
   \<and> wire (snd (on_message sample_runtime 0 ''alice'' (TextFrame ''{"type":"ping","id":"abc"}'') crowd)) =
       [\<lparr>target = 0,
         payload = ''{"type":"pong","timestamp":"2024-01-01T00:00:00.000Z","id":"abc","serverTime":"2024-01-01T00:00:00.001Z"}'',
         accepted = True\<rparr>]
   \<and> sessions (snd (on_message sample_runtime 0 ''alice'' (TextFrame ''{"type":"ping","id":"abc"}'') crowd)) =
       sessions crowd
   \<and> wire (snd (on_message sample_runtime 2 ''carol'' (TextFrame ''{"type":"ping","id":"abc"}'') crowd)) =
       [\<lparr>target = 2,
         payload = ''{"type":"pong","timestamp":"2024-01-01T00:00:00.000Z","id":"abc","serverTime":"2024-01-01T00:00:00.001Z"}'',
         accepted = False\<rparr>,
        \<lparr>target = 2, payload = ''{"type":"error","message":"Invalid message format"}'',
         accepted = False\<rparr>]\<close>
proof -
  have h1: \<open>JSON_parse sample_runtime ''{"type":"ping","id":"abc"}'' =
       Some (JObj [(''type'', JStr ''ping''), (''id'', JStr ''abc'')])\<close>
    by (simp add: sample_runtime_def sample_parse_def)
  have h2: "read_prop (JObj [(''type'', JStr ''ping''), (''id'', JStr ''abc'')]) ''type'' = JStr ''ping''"
    by simp
  note pong = ping_gets_one_pong_on_its_own_socket [OF h1 h2, of 0 "''alice''" crowd]
  note pong' = ping_gets_one_pong_on_its_own_socket [OF h1 h2, of 2 "''carol''" crowd]
  have sent: \<open>wire (snd (on_message sample_runtime 0 ''alice'' (TextFrame ''{"type":"ping","id":"abc"}'') crowd)) =
       [\<lparr>target = 0,
         payload = ''{"type":"pong","timestamp":"2024-01-01T00:00:00.000Z","id":"abc","serverTime":"2024-01-01T00:00:00.001Z"}'',
         accepted = True\<rparr>]\<close>
    using pong [THEN conjunct1]
    by (simp add: crowd_def sample_runtime_def sample_clock_def PongMessage_def quote_def)
  have sent': \<open>wire (snd (on_message sample_runtime 2 ''carol'' (TextFrame ''{"type":"ping","id":"abc"}'') crowd)) =
       [\<lparr>target = 2,
         payload = ''{"type":"pong","timestamp":"2024-01-01T00:00:00.000Z","id":"abc","serverTime":"2024-01-01T00:00:00.001Z"}'',
         accepted = False\<rparr>,
        \<lparr>target = 2, payload = ''{"type":"error","message":"Invalid message format"}'',
         accepted = False\<rparr>]\<close>
    using pong' [THEN conjunct1]
    by (simp add: crowd_def sample_runtime_def sample_clock_def PongMessage_def ErrorMessage_def quote_def)
  from h1 sent pong [THEN conjunct2] sent' show ?thesis
    by blast
qed




section \<open>The registry stays in order\<close>

text \<open>
  Marking the entry of a socket and deleting its key removes the entry; setting a key that
  is not there appends the entry.
\<close>

lemma evict_eq: "Map_delete ws (mark_quit ws m) = filter (\<lambda>e. fst e \<noteq> ws) m"
  by (induction m) (auto simp: Map_delete_def mark_quit_def)

lemma Map_set_fresh: "ws \<notin> fst ` set m \<Longrightarrow> Map_set ws v m = m @ [(ws, v)]"
  by (simp add: Map_set_def)

text \<open>
  When the registry has no key twice and no marked session, a broadcast leaves exactly the
  sessions whose send did not throw, unchanged and in their order.
\<close>

lemma survivors:
  assumes "distinct (map fst (sessions st))" and "list_all (\<lambda>e. \<not> quit (snd e)) (sessions st)"
  shows "sessions (broadcast rt message st) =
           map snd (filter (\<lambda>(n, e). \<not> send_throws rt n (webSocket (snd e)))
                      (enumerate (length (wire st)) (sessions st)))"
proof -
  let ?mark = "\<lambda>(n, e). (fst e, if send_throws rt n (webSocket (snd e)) then (snd e)\<lparr>quit := True\<rparr> else snd e)"
  let ?en = "enumerate (length (wire st)) (sessions st)"
  have keys: "map fst (map ?mark ?en) = map fst (sessions st)"
    using map_enumerate_snd [of fst "length (wire st)" "sessions st"]
    by (simp add: case_prod_unfold comp_def)
  have noquit: "\<And>x. x \<in> set ?en \<Longrightarrow> \<not> quit (snd (snd x))"
  proof -
    fix x assume "x \<in> set ?en"
    then have "snd x \<in> set (sessions st)"
      by (metis enumerate_eq_zip prod.collapse set_zip_rightD)
    with assms(2) show "\<not> quit (snd (snd x))"
      by (simp add: list_all_iff)
  qed
  have d: "distinct (map fst (map ?mark ?en))"
    unfolding keys by (rule assms(1))
  have "sessions (broadcast rt message st) = sweep (map ?mark ?en)"
    by (simp add: sessions_broadcast)
  also have "\<dots> = filter (\<lambda>e. \<not> quit (snd e)) (map ?mark ?en)"
    by (rule sweep_distinct [OF d])
  also have "\<dots> = map ?mark (filter (\<lambda>(n, e). \<not> send_throws rt n (webSocket (snd e))) ?en)"
    unfolding filter_map
    by (rule arg_cong [where f = "map ?mark"], rule filter_cong [OF refl])
       (use noquit in \<open>auto simp: case_prod_unfold\<close>)
  also have "\<dots> = map snd (filter (\<lambda>(n, e). \<not> send_throws rt n (webSocket (snd e))) ?en)"
    by (rule map_cong [OF refl]) auto
  finally show ?thesis .
qed


lemma set_survivors: "set (map snd (filter P (enumerate k xs))) \<subseteq> set xs"
  by (induction xs arbitrary: k) auto

lemma distinct_survivors:
  "distinct (map fst xs) \<Longrightarrow> distinct (map fst (map snd (filter P (enumerate k xs))))"
proof (induction xs arbitrary: k)
  case Nil
  then show ?case by simp
next
  case (Cons x xs)
  have "fst x \<notin> set (map fst (map snd (filter P (enumerate (Suc k) xs))))"
    using Cons.prems set_survivors [of P "Suc k" xs] by auto
  moreover have "distinct (map fst (map snd (filter P (enumerate (Suc k) xs))))"
    using Cons.prems by (intro Cons.IH) simp
  ultimately show ?case
    by (simp del: map_map)
qed

lemma registry_ok_frame [simp]:
  "registry_ok (st\<lparr>dates := d\<rparr>) = registry_ok st"
  "registry_ok (st\<lparr>listeners := l\<rparr>) = registry_ok st"
  "registry_ok (st\<lparr>wire := w\<rparr>) = registry_ok st"
  by (simp_all add: registry_ok_def)

lemma registry_ok_no_quit: "registry_ok st \<Longrightarrow> list_all (\<lambda>e. \<not> quit (snd e)) (sessions st)"
  by (auto simp: registry_ok_def list_all_iff)

lemma sessions_broadcast_ok:
  assumes "registry_ok st"
  shows "sessions (broadcast rt message st) =
           map snd (filter (\<lambda>(n, e). \<not> send_throws rt n (webSocket (snd e)))
                      (enumerate (length (wire st)) (sessions st)))"
  using assms survivors [of st rt message] registry_ok_no_quit [of st]
  by (simp add: registry_ok_def)

lemma registry_ok_broadcast:
  assumes "registry_ok st"
  shows "registry_ok (broadcast rt message st)"
proof -
  let ?P = "\<lambda>(n, e). \<not> send_throws rt n (webSocket (snd e))"
  have s: "sessions (broadcast rt message st) = map snd (filter ?P (enumerate (length (wire st)) (sessions st)))"
    by (rule sessions_broadcast_ok [OF assms])
  have "distinct (map fst (sessions (broadcast rt message st)))"
    unfolding s using assms by (intro distinct_survivors) (simp add: registry_ok_def)
  moreover have "set (sessions (broadcast rt message st)) \<subseteq> set (sessions st)"
    unfolding s by (rule set_survivors)
  ultimately show ?thesis
    using assms by (auto simp: registry_ok_def list_all_iff)
qed

lemma registry_ok_broadcastUserList: "registry_ok st \<Longrightarrow> registry_ok (broadcastUserList rt st)"
  by (simp add: broadcastUserList_def registry_ok_broadcast)

lemma keys_broadcast:
  "registry_ok st \<Longrightarrow> set (sessions (broadcast rt message st)) \<subseteq> set (sessions st)"
  unfolding sessions_broadcast_ok by (rule set_survivors)

lemma registry_ok_evict:
  assumes "registry_ok st"
  shows "registry_ok (st\<lparr>sessions := Map_delete ws (mark_quit ws (sessions st))\<rparr>)"
  using assms by (auto simp: registry_ok_def evict_eq list_all_iff distinct_map_filter)

lemma registry_ok_admit:
  assumes "registry_ok st"
  shows "registry_ok (st\<lparr>sockets := Suc (sockets st),
                          sessions := Map_set (sockets st)
                             \<lparr>webSocket = sockets st, username = name, quit = False\<rparr> (sessions st)\<rparr>)"
proof -
  have fresh: "sockets st \<notin> fst ` set (sessions st)"
    using assms by (auto simp: registry_ok_def list_all_iff)
  show ?thesis
    using assms fresh by (auto simp: registry_ok_def Map_set_fresh list_all_iff less_Suc_eq)
qed


section \<open>The invariants hold in every state of a run\<close>

lemma fetch_cases:
  "snd (fetch rt request st) = st \<or>
   (\<exists>raw. username_param request = Some raw \<and>
      snd (fetch rt request st) =
        handleSession rt (sockets st) (String_trim rt raw) (st\<lparr>sockets := Suc (sockets st)\<rparr>))"
  by (auto simp: fetch_def Let_def split: option.splits)

lemma sessions_handleSession_subset:
  assumes "registry_ok st"
  shows "registry_ok (handleSession rt (sockets st) name (st\<lparr>sockets := Suc (sockets st)\<rparr>))
       \<and> set (sessions (handleSession rt (sockets st) name (st\<lparr>sockets := Suc (sockets st)\<rparr>)))
           \<subseteq> insert (sockets st, \<lparr>webSocket = sockets st, username = name, quit = False\<rparr>)
                 (set (sessions st))"
proof -
  let ?session = "\<lparr>webSocket = sockets st, username = name, quit = False\<rparr>"
  let ?st1 = "st\<lparr>sockets := Suc (sockets st),
                  sessions := Map_set (sockets st) ?session (sessions st)\<rparr>"
  let ?st2 = "broadcastUserList rt ?st1"
  let ?st3 = "?st2\<lparr>dates := Suc (dates ?st2)\<rparr>"
  let ?st4 = "broadcast rt (ChatMessage ''System'' (JStr (name @ '' joined the chat''))
                (toISOString rt (dates ?st2))) ?st3"
  have fresh: "sockets st \<notin> fst ` set (sessions st)"
    using assms by (auto simp: registry_ok_def list_all_iff)
  have ok1: "registry_ok ?st1"
    by (rule registry_ok_admit [OF assms])
  have ok2: "registry_ok ?st2"
    by (rule registry_ok_broadcastUserList [OF ok1])
  have ok3: "registry_ok ?st3"
    using ok2 by simp
  have ok4: "registry_ok ?st4"
    by (rule registry_ok_broadcast [OF ok3])
  have "set (sessions ?st4) \<subseteq> set (sessions ?st3)"
    by (rule keys_broadcast [OF ok3])
  also have "\<dots> \<subseteq> set (sessions ?st1)"
    using keys_broadcast [OF ok1] by (simp add: broadcastUserList_def)
  also have "\<dots> = insert (sockets st, ?session) (set (sessions st))"
    using fresh by (simp add: Map_set_fresh)
  finally have sub: "set (sessions ?st4) \<subseteq> insert (sockets st, ?session) (set (sessions st))" .
  have eq: "handleSession rt (sockets st) name (st\<lparr>sockets := Suc (sockets st)\<rparr>) =
              ?st4\<lparr>listeners := listeners ?st4 @ [(sockets st, name)]\<rparr>"
    by (simp add: handleSession_def Let_def new_Date_def)
  show ?thesis
    unfolding eq using ok4 sub by simp
qed


lemma on_message_cases:
  "(sessions (snd (on_message rt ws name msg_data st)) = sessions st
      \<and> listeners (snd (on_message rt ws name msg_data st)) = listeners st
      \<and> sockets (snd (on_message rt ws name msg_data st)) = sockets st)
   \<or> (\<exists>message. snd (on_message rt ws name msg_data st) =
          broadcast rt message (st\<lparr>dates := Suc (dates st)\<rparr>))"
  by (cases msg_data)
     (auto simp: on_message_def try_block_def new_Date_def WebSocket_send_eq split: option.splits)

lemma on_close_eq:
  "on_close rt ws name st =
     broadcast rt (ChatMessage ''System'' (JStr (name @ '' left the chat''))
                     (toISOString rt (dates st)))
       ((broadcastUserList rt (st\<lparr>sessions := filter (\<lambda>e. fst e \<noteq> ws) (sessions st)\<rparr>))
          \<lparr>dates := Suc (dates st)\<rparr>)"
  by (simp add: on_close_def Let_def new_Date_def evict_eq broadcastUserList_def)

lemma on_error_eq:
  "on_error rt ws st =
     broadcastUserList rt (st\<lparr>sessions := filter (\<lambda>e. fst e \<noteq> ws) (sessions st)\<rparr>)"
  by (simp add: on_error_def Let_def evict_eq)

lemma registry_ok_filter:
  "registry_ok st \<Longrightarrow> registry_ok (st\<lparr>sessions := filter (\<lambda>e. fst e \<noteq> ws) (sessions st)\<rparr>)"
  using registry_ok_evict [of st ws] by (simp add: evict_eq)

lemma handleSession_frame:
  "sockets (handleSession rt ws name st) = sockets st"
  "listeners (handleSession rt ws name st) = listeners st @ [(ws, name)]"
  by (simp_all add: handleSession_def Let_def new_Date_def broadcastUserList_def)

lemma broadcastUserList_frame [simp]:
  "dates (broadcastUserList rt st) = dates st"
  "listeners (broadcastUserList rt st) = listeners st"
  "sockets (broadcastUserList rt st) = sockets st"
  by (simp_all add: broadcastUserList_def)

text \<open>
  One step of the room keeps the registry in order. Either it creates no socket, adds no
  listener and adds no session; or it is the admission of a request, which creates one
  socket, puts listeners on it, and adds at most the session of that socket, under the
  trimmed \<open>username\<close> of the request.
\<close>

lemma react_step:
  assumes "registry_ok st"
  shows "registry_ok (react rt st ev)
       \<and> ((sockets (react rt st ev) = sockets st \<and> listeners (react rt st ev) = listeners st
            \<and> set (sessions (react rt st ev)) \<subseteq> set (sessions st))
          \<or> (\<exists>request raw. ev = Fetch request \<and> username_param request = Some raw
                \<and> sockets (react rt st ev) = Suc (sockets st)
                \<and> listeners (react rt st ev) = listeners st @ [(sockets st, String_trim rt raw)]
                \<and> set (sessions (react rt st ev))
                    \<subseteq> insert (sockets st, \<lparr>webSocket = sockets st, username = String_trim rt raw,
                                               quit = False\<rparr>) (set (sessions st))))"
proof (cases ev)
  case (Fetch request)
  from fetch_cases [of rt request st] show ?thesis
  proof
    assume "snd (fetch rt request st) = st"
    with assms Fetch show ?thesis by auto
  next
    assume "\<exists>raw. username_param request = Some raw \<and> snd (fetch rt request st) =
        handleSession rt (sockets st) (String_trim rt raw) (st\<lparr>sockets := Suc (sockets st)\<rparr>)"
    then obtain raw where raw: "username_param request = Some raw"
      and eq: "react rt st ev =
        handleSession rt (sockets st) (String_trim rt raw) (st\<lparr>sockets := Suc (sockets st)\<rparr>)"
      using Fetch by auto
    from sessions_handleSession_subset [OF assms, of rt "String_trim rt raw"] raw Fetch
    show ?thesis
      unfolding eq by (auto simp: handleSession_frame)
  qed
next
  case (Message ws msg_data)
  show ?thesis
  proof (cases "map_of (listeners st) ws")
    case None
    with assms Message show ?thesis by auto
  next
    case (Some name)
    from on_message_cases [of rt ws name msg_data st] show ?thesis
    proof (elim disjE exE)
      assume "sessions (snd (on_message rt ws name msg_data st)) = sessions st
        \<and> listeners (snd (on_message rt ws name msg_data st)) = listeners st
        \<and> sockets (snd (on_message rt ws name msg_data st)) = sockets st"
      with assms Message Some show ?thesis by (auto simp: registry_ok_def)
    next
      fix message
      assume "snd (on_message rt ws name msg_data st) =
          broadcast rt message (st\<lparr>dates := Suc (dates st)\<rparr>)"
      then have eq: "react rt st ev = broadcast rt message (st\<lparr>dates := Suc (dates st)\<rparr>)"
        using Message Some by simp
      have ok: "registry_ok (st\<lparr>dates := Suc (dates st)\<rparr>)"
        using assms by simp
      from registry_ok_broadcast [OF ok, of rt message] keys_broadcast [OF ok, of rt message]
      show ?thesis
        unfolding eq by auto
    qed
  qed
next
  case (Close ws)
  show ?thesis
  proof (cases "map_of (listeners st) ws")
    case None
    with assms Close show ?thesis by auto
  next
    case (Some name)
    let ?st1 = "st\<lparr>sessions := filter (\<lambda>e. fst e \<noteq> ws) (sessions st)\<rparr>"
    let ?st3 = "(broadcastUserList rt ?st1)\<lparr>dates := Suc (dates st)\<rparr>"
    have ok1: "registry_ok ?st1"
      by (rule registry_ok_filter [OF assms])
    have ok3: "registry_ok ?st3"
      using registry_ok_broadcastUserList [OF ok1, of rt] by simp
    let ?st4 = "broadcast rt (ChatMessage ''System'' (JStr (name @ '' left the chat''))
                     (toISOString rt (dates st))) ?st3"
    have "set (sessions ?st4) \<subseteq> set (sessions ?st3)"
      by (rule keys_broadcast [OF ok3])
    also have "\<dots> \<subseteq> set (sessions ?st1)"
      using keys_broadcast [OF ok1] by (simp add: broadcastUserList_def)
    also have "\<dots> \<subseteq> set (sessions st)"
      by auto
    finally have sub: "set (sessions ?st4) \<subseteq> set (sessions st)" .
    have ok4: "registry_ok ?st4"
      by (rule registry_ok_broadcast [OF ok3])
    have eq: "react rt st ev = ?st4"
      using Close Some by (simp add: on_close_eq)
    have "sockets ?st4 = sockets st" and "listeners ?st4 = listeners st"
      by simp_all
    with ok4 sub show ?thesis
      unfolding eq by auto
  qed
next
  case (Error ws)
  show ?thesis
  proof (cases "map_of (listeners st) ws")
    case None
    with assms Error show ?thesis by auto
  next
    case (Some name)
    let ?st1 = "st\<lparr>sessions := filter (\<lambda>e. fst e \<noteq> ws) (sessions st)\<rparr>"
    have ok1: "registry_ok ?st1"
      by (rule registry_ok_filter [OF assms])
    have "set (sessions (broadcastUserList rt ?st1)) \<subseteq> set (sessions ?st1)"
      using keys_broadcast [OF ok1] by (simp add: broadcastUserList_def)
    also have "\<dots> \<subseteq> set (sessions st)"
      by auto
    finally have sub: "set (sessions (broadcastUserList rt ?st1)) \<subseteq> set (sessions st)" .
    have eq: "react rt st ev = broadcastUserList rt ?st1"
      using Error Some by (simp add: on_error_eq)
    have "sockets (broadcastUserList rt ?st1) = sockets st"
      and "listeners (broadcastUserList rt ?st1) = listeners st"
      by simp_all
    with registry_ok_broadcastUserList [OF ok1, of rt] sub show ?thesis
      unfolding eq by auto
  qed
qed


lemma react_listeners:
  assumes "registry_ok st" and "listeners_ok st"
  shows "listeners_ok (react rt st ev)"
proof -
  from react_step [OF assms(1), of rt ev]
  consider
    (same) "sockets (react rt st ev) = sockets st" "listeners (react rt st ev) = listeners st"
      "set (sessions (react rt st ev)) \<subseteq> set (sessions st)"
  | (admitted) name where "sockets (react rt st ev) = Suc (sockets st)"
      "listeners (react rt st ev) = listeners st @ [(sockets st, name)]"
      "set (sessions (react rt st ev))
         \<subseteq> insert (sockets st, \<lparr>webSocket = sockets st, username = name, quit = False\<rparr>)
               (set (sessions st))"
    by blast
  then show ?thesis
  proof cases
    case same
    with assms(2) show ?thesis
      by (auto simp: listeners_ok_def list_all_iff)
  next
    case admitted
    have none: "map_of (listeners st) (sockets st) = None"
      using assms(2) by (force simp: listeners_ok_def list_all_iff map_of_eq_None_iff)
    have old: "map_of (listeners st @ [(sockets st, name)]) k = Some u"
      if "map_of (listeners st) k = Some u" for k u
      using that by (simp add: map_add_Some_iff)
    have new: "map_of (listeners st @ [(sockets st, name)]) (sockets st) = Some name"
      using none by (simp add: map_add_Some_iff)
    show ?thesis
      unfolding listeners_ok_def admitted(1,2)
    proof (intro conjI)
      show "list_all (\<lambda>(ws, name). ws < Suc (sockets st)) (listeners st @ [(sockets st, name)])"
        using assms(2) by (auto simp: listeners_ok_def list_all_iff)
      show "list_all (\<lambda>(ws, session). map_of (listeners st @ [(sockets st, name)]) ws = Some (username session))
              (sessions (react rt st ev))"
        unfolding list_all_iff
      proof
        fix e assume "e \<in> set (sessions (react rt st ev))"
        with admitted(3) consider "e = (sockets st, \<lparr>webSocket = sockets st, username = name, quit = False\<rparr>)"
          | "e \<in> set (sessions st)" by blast
        then show "case e of (ws, session) \<Rightarrow>
            map_of (listeners st @ [(sockets st, name)]) ws = Some (username session)"
        proof cases
          case 1
          with new show ?thesis by simp
        next
          case 2
          with assms(2) have "map_of (listeners st) (fst e) = Some (username (snd e))"
            by (auto simp: listeners_ok_def list_all_iff)
          from old [OF this] show ?thesis by (simp add: case_prod_unfold)
        qed
      qed
    qed
  qed
qed

lemma run_snoc: "run rt (events @ [ev]) = react rt (run rt events) ev"
  by (simp add: run_def)

lemma run_ok: "registry_ok (run rt events) \<and> listeners_ok (run rt events)"
proof (induction events rule: rev_induct)
  case Nil
  show ?case by (simp add: run_def constructor_def registry_ok_def listeners_ok_def)
next
  case (snoc ev events)
  then show ?case
    using react_step [of "run rt events" rt ev] react_listeners [of "run rt events" rt ev]
    by (simp add: run_snoc)
qed

text \<open>A broadcast adds no key to the registry, whatever the state.\<close>

lemma keys_of_broadcast:
  "fst ` set (sessions (broadcast rt message st)) \<subseteq> fst ` set (sessions st)"
proof -
  let ?mark = "\<lambda>(n, e). (fst e, if send_throws rt n (webSocket (snd e)) then (snd e)\<lparr>quit := True\<rparr> else snd e)"
  let ?en = "enumerate (length (wire st)) (sessions st)"
  have keys: "map fst (map ?mark ?en) = map fst (sessions st)"
    using map_enumerate_snd [of fst "length (wire st)" "sessions st"]
    by (simp add: case_prod_unfold comp_def)
  have "set (sessions (broadcast rt message st)) \<subseteq> set (map ?mark ?en)"
    unfolding sessions_broadcast by (rule sweep_subset)
  then have "fst ` set (sessions (broadcast rt message st)) \<subseteq> set (map fst (map ?mark ?en))"
    unfolding set_map [of fst] by (rule image_mono)
  then show ?thesis
    unfolding keys by simp
qed

section \<open>Runs of the room\<close>

text \<open>
  Claim C4. In every state the room reaches from its construction by reacting to events
  (requests, frames, close and error signals), no session in the registry is marked
  \<open>quit\<close>; and whatever the state a broadcast starts from, none is marked when it returns.
\<close>

theorem registered_sessions_are_never_marked:
  "(\<forall>e \<in> set (sessions (run rt events)). \<not> quit (snd e))
   \<and> (\<forall>e \<in> set (sessions (broadcast rt message st)). \<not> quit (snd e))"
proof
  have "registry_ok (run rt events)"
    using run_ok [of rt events] by simp
  then show "\<forall>e \<in> set (sessions (run rt events)). \<not> quit (snd e)"
    by (auto simp: registry_ok_def list_all_iff)
  show "\<forall>e \<in> set (sessions (broadcast rt message st)). \<not> quit (snd e)"
    using broadcast_no_quit [of _ rt message st] by blast
qed

text \<open>
  On the sample platform alice, bob and carol arrive; carol's socket throws at the first
  send, and the broadcast that meets it removes her.
\<close>

lemma sample_run:
  "sessions (run sample_runtime
       [Fetch (upgrade_request ''  alice ''), Fetch (upgrade_request ''bob''),
        Fetch (upgrade_request ''carol'')]) =
     [(0, \<lparr>webSocket = 0, username = ''alice'', quit = False\<rparr>),
      (1, \<lparr>webSocket = 1, username = ''bob'', quit = False\<rparr>)]"
  by (simp add: run_def constructor_def upgrade_request_def fetch_def handleSession_def
      broadcastUserList_def roster_def broadcast_def sweep_def Map_set_def Map_delete_def
      new_Date_def send_def sample_runtime_def sample_trim_def Let_def)

theorem registered_sessions_are_never_marked_witness:
  "map (\<lambda>e. (username (snd e), quit (snd e)))
     (sessions (run sample_runtime
       [Fetch (upgrade_request ''  alice ''), Fetch (upgrade_request ''bob''),
        Fetch (upgrade_request ''carol'')])) =
     [(''alice'', False), (''bob'', False)]
   \<and> map (\<lambda>e. (username (snd e), quit (snd e)))
       (sessions (broadcast sample_runtime (UserListMessage [''alice'', ''bob'', ''carol'']) crowd)) =
     [(''alice'', False), (''bob'', False)]"
proof -
  note inv = registered_sessions_are_never_marked [of sample_runtime
      "[Fetch (upgrade_request ''  alice ''), Fetch (upgrade_request ''bob''),
        Fetch (upgrade_request ''carol'')]" "UserListMessage [''alice'', ''bob'', ''carol'']" crowd]
  have b: "sessions (broadcast sample_runtime (UserListMessage [''alice'', ''bob'', ''carol'']) crowd) =
     [(0, \<lparr>webSocket = 0, username = ''alice'', quit = False\<rparr>),
      (1, \<lparr>webSocket = 1, username = ''bob'', quit = False\<rparr>)]"
    by (simp add: broadcast_def sweep_def Map_delete_def send_def sample_runtime_def crowd_def Let_def)
  from inv show ?thesis
    by (simp add: sample_run b)
qed


lemma registry_targets:
  assumes "registry_ok st"
  shows "map (\<lambda>e. webSocket (snd e)) (sessions st) = map fst (sessions st)"
  using assms by (auto simp: registry_ok_def list_all_iff)

text \<open>
  Claim C7. Let the room be in a state it has reached, with a session registered under
  the socket \<open>ws\<close>, and let a text frame arrive on \<open>ws\<close> that parses to a value of type
  \<open>message\<close> whose \<open>text\<close> is a non-empty string \<open>t\<close>. Then the whole reaction is one
  broadcast, of the message that holds the session's \<open>username\<close>, the string \<open>t\<close> as it
  is, and the date the server reads while it handles the frame. That broadcast calls
  \<open>send\<close> once on the socket of every registered session, the sender's among them, each
  time with the one serialization of that message.
\<close>

theorem chat_frame_is_broadcast_to_every_session:
  assumes "st = run rt events"
    and "map_of (sessions st) ws = Some session"
    and "JSON_parse rt text = Some data"
    and "read_prop data ''type'' = JStr ''message''"
    and "read_prop data ''text'' = JStr t" and "t \<noteq> []"
  shows "react rt st (Message ws (TextFrame text)) =
           broadcast rt (ChatMessage (username session) (JStr t) (toISOString rt (dates st)))
             (st\<lparr>dates := Suc (dates st)\<rparr>)
         \<and> map target (drop (length (wire st)) (wire (react rt st (Message ws (TextFrame text))))) =
             map fst (sessions st)
         \<and> map payload (drop (length (wire st)) (wire (react rt st (Message ws (TextFrame text))))) =
             replicate (length (sessions st))
               (JSON_stringify rt (ChatMessage (username session) (JStr t) (toISOString rt (dates st))))
         \<and> ws \<in> set (map fst (sessions st))"
proof -
  let ?message = "ChatMessage (username session) (JStr t) (toISOString rt (dates st))"
  let ?st1 = "st\<lparr>dates := Suc (dates st)\<rparr>"
  have ok: "registry_ok st" and lis: "listeners_ok st"
    using run_ok [of rt events] assms(1) by simp_all
  have mem: "(ws, session) \<in> set (sessions st)"
    using assms(2) by (rule map_of_SomeD)
  with lis have name: "map_of (listeners st) ws = Some (username session)"
    by (auto simp: listeners_ok_def list_all_iff)
  have "truthy (read_prop data ''text'')"
    using assms(5,6) by simp
  from on_message_chat [OF assms(3,4) this, of ws "username session" st] name
  have eq: "react rt st (Message ws (TextFrame text)) = broadcast rt ?message ?st1"
    by (simp add: assms(5))
  have t: "map target (drop (length (wire st)) (wire (broadcast rt ?message ?st1))) = map fst (sessions st)"
    using targets_broadcast [of ?st1 rt ?message] registry_targets [OF ok] by simp
  have p: "map payload (drop (length (wire st)) (wire (broadcast rt ?message ?st1))) =
      replicate (length (sessions st)) (JSON_stringify rt ?message)"
    using payloads_broadcast [of ?st1 rt ?message] by simp
  from mem have "ws \<in> set (map fst (sessions st))"
    by force
  with eq t p show ?thesis
    by simp
qed

lemma sample_runtime_fields:
  "JSON_parse sample_runtime = sample_parse"
  "JSON_stringify sample_runtime = sample_stringify"
  "String_trim sample_runtime = sample_trim"
  "send_throws sample_runtime = (\<lambda>n ws. ws = 2)"
  "toISOString sample_runtime = sample_clock"
  by (simp_all add: sample_runtime_def)

text \<open>The sample run ends in the lobby, after two dates.\<close>

lemma two_arrivals_run:
  "sessions (run sample_runtime two_arrivals) = sessions lobby"
  "listeners (run sample_runtime two_arrivals) = listeners lobby"
  "sockets (run sample_runtime two_arrivals) = 2"
  "dates (run sample_runtime two_arrivals) = 2"
  by (simp_all add: two_arrivals_def lobby_def run_def constructor_def upgrade_request_def
      fetch_def handleSession_def broadcastUserList_def roster_def broadcast_def sweep_def
      Map_set_def Map_delete_def new_Date_def send_def sample_runtime_def sample_trim_def Let_def)

theorem chat_frame_is_broadcast_to_every_session_witness:
  \<open>map_of (sessions (run sample_runtime two_arrivals)) 0 =
       Some \<lparr>webSocket = 0, username = ''alice'', quit = False\<rparr>
   \<and> JSON_parse sample_runtime ''{"type":"message","text":"hi"}'' =
       Some (JObj [(''type'', JStr ''message''), (''text'', JStr ''hi'')])
   \<and> map target (drop (length (wire (run sample_runtime two_arrivals)))
         (wire (react sample_runtime (run sample_runtime two_arrivals)
                  (Message 0 (TextFrame ''{"type":"message","text":"hi"}''))))) = [0, 1]
   \<and> map payload (drop (length (wire (run sample_runtime two_arrivals)))
         (wire (react sample_runtime (run sample_runtime two_arrivals)
                  (Message 0 (TextFrame ''{"type":"message","text":"hi"}''))))) =
       [''{"type":"message","username":"alice","text":"hi","timestamp":"2024-01-01T00:00:00.002Z"}'',
        ''{"type":"message","username":"alice","text":"hi","timestamp":"2024-01-01T00:00:00.002Z"}'']\<close>
proof -
  let ?data = "JObj [(''type'', JStr ''message''), (''text'', JStr ''hi'')]"
  have h2: "map_of (sessions (run sample_runtime two_arrivals)) 0 =
       Some \<lparr>webSocket = 0, username = ''alice'', quit = False\<rparr>"
    by (simp add: two_arrivals_run lobby_def)
  have h3: \<open>JSON_parse sample_runtime ''{"type":"message","text":"hi"}'' = Some ?data\<close>
    by (simp add: sample_runtime_def sample_parse_def)
  have h4: "read_prop ?data ''type'' = JStr ''message''" and h5: "read_prop ?data ''text'' = JStr ''hi''"
    and h6: "''hi'' \<noteq> []"
    by simp_all
  note relay = chat_frame_is_broadcast_to_every_session [OF refl h2 h3 h4 h5 h6]
  have t: \<open>map target (drop (length (wire (run sample_runtime two_arrivals)))
         (wire (react sample_runtime (run sample_runtime two_arrivals)
                  (Message 0 (TextFrame ''{"type":"message","text":"hi"}''))))) = [0, 1]\<close>
    using relay [THEN conjunct2, THEN conjunct1] by (simp add: two_arrivals_run lobby_def)
  have p: \<open>map payload (drop (length (wire (run sample_runtime two_arrivals)))
         (wire (react sample_runtime (run sample_runtime two_arrivals)
                  (Message 0 (TextFrame ''{"type":"message","text":"hi"}''))))) =
       [''{"type":"message","username":"alice","text":"hi","timestamp":"2024-01-01T00:00:00.002Z"}'',
        ''{"type":"message","username":"alice","text":"hi","timestamp":"2024-01-01T00:00:00.002Z"}'']\<close>
    using relay [THEN conjunct2, THEN conjunct2, THEN conjunct1]
    by (simp add: two_arrivals_run lobby_def sample_runtime_fields sample_clock_def ChatMessage_def
        quote_def)
  from h2 h3 t p show ?thesis
    by blast
qed

section \<open>The roster\<close>

lemma roster_ok:
  assumes "registry_ok st"
  shows "roster st = map (username \<circ> snd) (sessions st)"
proof -
  have "filter (\<lambda>s. \<not> quit s) (map snd (sessions st)) = map snd (sessions st)"
    using assms by (auto simp: registry_ok_def list_all_iff filter_id_conv)
  then show ?thesis by (simp add: roster_def)
qed

text \<open>
  When a reaction starts with \<open>broadcastUserList\<close> on the state \<open>st1\<close>, the first calls
  of \<open>send\<close> it makes go one to each session of \<open>st1\<close>, with the list of their usernames.
\<close>

lemma roster_calls_first:
  assumes "wire st' = wire (broadcastUserList rt st1) @ rest" and "registry_ok st1"
  shows "map target (take (length (sessions st1)) (drop (length (wire st1)) (wire st'))) =
           map fst (sessions st1)
       \<and> map payload (take (length (sessions st1)) (drop (length (wire st1)) (wire st'))) =
           replicate (length (sessions st1))
             (JSON_stringify rt (UserListMessage (map (username \<circ> snd) (sessions st1))))"
proof -
  let ?calls = "drop (length (wire st1)) (wire (broadcastUserList rt st1))"
  have t: "map target ?calls = map fst (sessions st1)"
    using targets_broadcast [of st1 rt "UserListMessage (roster st1)"] registry_targets [OF assms(2)]
    by (simp add: broadcastUserList_def)
  have p: "map payload ?calls = replicate (length (sessions st1))
      (JSON_stringify rt (UserListMessage (map (username \<circ> snd) (sessions st1))))"
    using payloads_broadcast [of st1 rt "UserListMessage (roster st1)"] roster_ok [OF assms(2)]
    by (simp add: broadcastUserList_def)
  have len: "length ?calls = length (sessions st1)"
    using arg_cong [OF t, of length] by simp
  have le: "length (wire st1) \<le> length (wire (broadcastUserList rt st1))"
    by (simp add: broadcastUserList_def wire_broadcast)
  have "drop (length (wire st1)) (wire st') = ?calls @ rest"
    using le by (simp add: assms(1))
  then have "take (length (sessions st1)) (drop (length (wire st1)) (wire st')) = ?calls"
    using len by simp
  with t p show ?thesis by simp
qed

lemma wire_handleSession:
  "\<exists>rest. wire (handleSession rt ws name st) =
     wire (broadcastUserList rt
             (st\<lparr>sessions := Map_set ws \<lparr>webSocket = ws, username = name, quit = False\<rparr> (sessions st)\<rparr>))
     @ rest"
  by (simp add: handleSession_def Let_def new_Date_def wire_broadcast)

lemma wire_on_close:
  "\<exists>rest. wire (on_close rt ws name st) =
     wire (broadcastUserList rt (st\<lparr>sessions := filter (\<lambda>e. fst e \<noteq> ws) (sessions st)\<rparr>)) @ rest"
  by (simp add: on_close_eq wire_broadcast)

lemma fetch_accepted:
  assumes "Upgrade request = Some ''websocket''" and "username_param request = Some raw"
    and "raw \<noteq> []" and "String_trim rt raw \<noteq> []"
  shows "fetch rt request st =
           (Response 101 None,
            handleSession rt (sockets st) (String_trim rt raw) (st\<lparr>sockets := Suc (sockets st)\<rparr>))"
  using assms by (simp add: fetch_def Let_def)

text \<open>Every registered username is the trimmed \<open>username\<close> parameter of a request of the run.\<close>

lemma run_usernames:
  "\<forall>e \<in> set (sessions (run rt events)).
     \<exists>request raw. Fetch request \<in> set events \<and> username_param request = Some raw
        \<and> username (snd e) = String_trim rt raw"
proof (induction events rule: rev_induct)
  case Nil
  show ?case by (simp add: run_def constructor_def)
next
  case (snoc ev events)
  have ok: "registry_ok (run rt events)"
    using run_ok [of rt events] by simp
  show ?case
  proof
    fix e assume e: "e \<in> set (sessions (run rt (events @ [ev])))"
    from react_step [OF ok, of rt ev] e
    consider "e \<in> set (sessions (run rt events))"
      | request raw where "ev = Fetch request" "username_param request = Some raw"
          "e = (sockets (run rt events),
                \<lparr>webSocket = sockets (run rt events), username = String_trim rt raw, quit = False\<rparr>)"
      unfolding run_snoc by blast
    then show "\<exists>request raw. Fetch request \<in> set (events @ [ev]) \<and> username_param request = Some raw
        \<and> username (snd e) = String_trim rt raw"
    proof cases
      case 1
      with snoc.IH show ?thesis by fastforce
    next
      case 2
      then show ?thesis by force
    qed
  qed
qed


text \<open>
  The roster sent on an admission, and on a close or error signal, from any state whose
  registry is in order.
\<close>

lemma roster_after_admission:
  assumes ok: "registry_ok st"
    and a: "Upgrade request = Some ''websocket'' \<and> username_param request = Some raw \<and> raw \<noteq> []
            \<and> String_trim rt raw \<noteq> []
            \<and> members = sessions st @
                 [(sockets st, \<lparr>webSocket = sockets st, username = String_trim rt raw, quit = False\<rparr>)]
            \<and> sent = take (length members) (drop (length (wire st)) (wire (react rt st (Fetch request))))"
  shows "map target sent = map fst members
       \<and> map payload sent = replicate (length members)
             (JSON_stringify rt (UserListMessage (map (username \<circ> snd) members)))"
proof -
  let ?session = "\<lparr>webSocket = sockets st, username = String_trim rt raw, quit = False\<rparr>"
  let ?st1 = "st\<lparr>sockets := Suc (sockets st), sessions := Map_set (sockets st) ?session (sessions st)\<rparr>"
  have fresh: "sockets st \<notin> fst ` set (sessions st)"
    using ok by (auto simp: registry_ok_def list_all_iff)
  have m: "sessions ?st1 = members"
    using a fresh by (simp add: Map_set_fresh)
  have ok1: "registry_ok ?st1"
    by (rule registry_ok_admit [OF ok])
  have r: "react rt st (Fetch request) =
      handleSession rt (sockets st) (String_trim rt raw) (st\<lparr>sockets := Suc (sockets st)\<rparr>)"
    using a by (simp add: fetch_accepted)
  obtain rest where w: "wire (react rt st (Fetch request)) = wire (broadcastUserList rt ?st1) @ rest"
    using wire_handleSession [of rt "sockets st" "String_trim rt raw" "st\<lparr>sockets := Suc (sockets st)\<rparr>"]
    unfolding r by auto
  from roster_calls_first [OF w ok1] a show ?thesis
    unfolding m by simp
qed

lemma roster_after_eviction:
  assumes ok: "registry_ok st"
    and a: "map_of (listeners st) ws = Some name \<and> (ev = Close ws \<or> ev = Error ws)
            \<and> members = filter (\<lambda>e. fst e \<noteq> ws) (sessions st)
            \<and> sent = take (length members) (drop (length (wire st)) (wire (react rt st ev)))"
  shows "map target sent = map fst members
       \<and> map payload sent = replicate (length members)
             (JSON_stringify rt (UserListMessage (map (username \<circ> snd) members)))"
proof -
  let ?st1 = "st\<lparr>sessions := filter (\<lambda>e. fst e \<noteq> ws) (sessions st)\<rparr>"
  have ok1: "registry_ok ?st1"
    by (rule registry_ok_filter [OF ok])
  have "\<exists>rest. wire (react rt st ev) = wire (broadcastUserList rt ?st1) @ rest"
    using a wire_on_close [of rt ws name st] by (auto simp: on_error_eq)
  then obtain rest where w: "wire (react rt st ev) = wire (broadcastUserList rt ?st1) @ rest"
    by blast
  from roster_calls_first [OF w ok1] a show ?thesis
    by simp
qed

text \<open>
  Claim C6. Let \<open>st\<close> be any state the room reaches by a sequence of events.

  Admission: when a request with a non-blank \<open>username\<close> is admitted, the registry becomes
  \<open>members\<close>, the sessions of \<open>st\<close> followed by the new one, and the first calls of \<open>send\<close>
  of the reaction go one to each of \<open>members\<close> and carry the \<open>userList\<close> of exactly their
  usernames, in that order, the new one being the trimmed parameter.

  Eviction: when a close or error signal reaches the listeners of the socket \<open>ws\<close>, the
  registry becomes \<open>members\<close>, the sessions of \<open>st\<close> but the one of \<open>ws\<close>, and the first
  calls of \<open>send\<close> of the reaction go one to each of \<open>members\<close> and carry the \<open>userList\<close>
  of exactly their usernames.

  In \<open>st\<close> itself no registered session is marked \<open>quit\<close>, and every registered username
  is the trimmed \<open>username\<close> parameter of a request of the sequence.
\<close>

theorem roster_lists_the_registered_usernames:
  assumes "st = run rt events"
  shows "(Upgrade request = Some ''websocket'' \<and> username_param request = Some raw \<and> raw \<noteq> []
            \<and> String_trim rt raw \<noteq> []
            \<and> members = sessions st @
                 [(sockets st, \<lparr>webSocket = sockets st, username = String_trim rt raw, quit = False\<rparr>)]
            \<and> sent = take (length members) (drop (length (wire st)) (wire (react rt st (Fetch request))))
          \<longrightarrow> map target sent = map fst members
              \<and> map payload sent = replicate (length members)
                    (JSON_stringify rt (UserListMessage (map (username \<circ> snd) members))))
       \<and> (map_of (listeners st) ws = Some name \<and> (ev = Close ws \<or> ev = Error ws)
            \<and> members' = filter (\<lambda>e. fst e \<noteq> ws) (sessions st)
            \<and> sent' = take (length members') (drop (length (wire st)) (wire (react rt st ev)))
          \<longrightarrow> map target sent' = map fst members'
              \<and> map payload sent' = replicate (length members')
                    (JSON_stringify rt (UserListMessage (map (username \<circ> snd) members'))))
       \<and> (\<forall>e \<in> set (sessions st). \<not> quit (snd e)
            \<and> (\<exists>request raw. Fetch request \<in> set events \<and> username_param request = Some raw
                  \<and> username (snd e) = String_trim rt raw))"
proof (intro conjI impI)
  have ok: "registry_ok st"
    using run_ok [of rt events] assms by simp
  {
    assume a: "Upgrade request = Some ''websocket'' \<and> username_param request = Some raw \<and> raw \<noteq> []
            \<and> String_trim rt raw \<noteq> []
            \<and> members = sessions st @
                 [(sockets st, \<lparr>webSocket = sockets st, username = String_trim rt raw, quit = False\<rparr>)]
            \<and> sent = take (length members) (drop (length (wire st)) (wire (react rt st (Fetch request))))"
    from roster_after_admission [OF ok a]
    show "map target sent = map fst members"
      and "map payload sent = replicate (length members)
             (JSON_stringify rt (UserListMessage (map (username \<circ> snd) members)))"
      by simp_all
  }
  {
    assume a: "map_of (listeners st) ws = Some name \<and> (ev = Close ws \<or> ev = Error ws)
            \<and> members' = filter (\<lambda>e. fst e \<noteq> ws) (sessions st)
            \<and> sent' = take (length members') (drop (length (wire st)) (wire (react rt st ev)))"
    from roster_after_eviction [OF ok a]
    show "map target sent' = map fst members'"
      and "map payload sent' = replicate (length members')
             (JSON_stringify rt (UserListMessage (map (username \<circ> snd) members')))"
      by simp_all
  }
  show "\<forall>e \<in> set (sessions st). \<not> quit (snd e)
            \<and> (\<exists>request raw. Fetch request \<in> set events \<and> username_param request = Some raw
                  \<and> username (snd e) = String_trim rt raw)"
    using ok run_usernames [of rt events] assms
    by (auto simp: registry_ok_def list_all_iff)
qed

text \<open>
  After alice and bob have arrived: carol is admitted, her name padded with spaces; or bob's
  socket closes.
\<close>

theorem roster_lists_the_registered_usernames_witness:
  \<open>map (username \<circ> snd) (sessions (run sample_runtime two_arrivals)) = [''alice'', ''bob'']
   \<and> String_trim sample_runtime ''  alice '' = ''alice''
   \<and> map target
        (take 3 (drop (length (wire (run sample_runtime two_arrivals)))
           (wire (react sample_runtime (run sample_runtime two_arrivals)
                    (Fetch (upgrade_request '' carol '')))))) = [0, 1, 2]
   \<and> map payload
        (take 3 (drop (length (wire (run sample_runtime two_arrivals)))
           (wire (react sample_runtime (run sample_runtime two_arrivals)
                    (Fetch (upgrade_request '' carol '')))))) =
       [''{"type":"userList","users":["alice","bob","carol"]}'',
        ''{"type":"userList","users":["alice","bob","carol"]}'',
        ''{"type":"userList","users":["alice","bob","carol"]}'']
   \<and> map target
        (take 1 (drop (length (wire (run sample_runtime two_arrivals)))
           (wire (react sample_runtime (run sample_runtime two_arrivals) (Close 1))))) = [0]
   \<and> map payload
        (take 1 (drop (length (wire (run sample_runtime two_arrivals)))
           (wire (react sample_runtime (run sample_runtime two_arrivals) (Close 1))))) =
       [''{"type":"userList","users":["alice"]}'']\<close>
proof -
  let ?st = "run sample_runtime two_arrivals"
  let ?carol = "\<lparr>webSocket = 2, username = ''carol'', quit = False\<rparr>"
  let ?with_carol = "sessions lobby @ [(2, ?carol)]"
  let ?calls = "drop (length (wire ?st)) (wire (react sample_runtime ?st (Fetch (upgrade_request '' carol ''))))"
  let ?without_bob = "[(0 :: nat, \<lparr>webSocket = 0, username = ''alice'', quit = False\<rparr>)]"
  let ?calls' = "drop (length (wire ?st)) (wire (react sample_runtime ?st (Close 1)))"
  note roster = roster_lists_the_registered_usernames [OF refl, where rt = sample_runtime
      and events = two_arrivals and request = "upgrade_request '' carol ''" and raw = "'' carol ''"
      and members = ?with_carol and sent = "take (length ?with_carol) ?calls"
      and ws = 1 and name = "''bob''" and ev = "Close 1"
      and members' = ?without_bob and sent' = "take (length ?without_bob) ?calls'"]
  have trim: "String_trim sample_runtime '' carol '' = ''carol''"
    and trim': "String_trim sample_runtime ''  alice '' = ''alice''"
    by (simp_all add: sample_runtime_fields sample_trim_def)
  have three: "length ?with_carol = 3" and one: "length ?without_bob = 1"
    by (simp_all add: lobby_def)
  have h1: "Upgrade (upgrade_request '' carol '') = Some ''websocket''
      \<and> username_param (upgrade_request '' carol '') = Some '' carol '' \<and> '' carol '' \<noteq> []
      \<and> String_trim sample_runtime '' carol '' \<noteq> []
      \<and> ?with_carol = sessions ?st @
           [(sockets ?st, \<lparr>webSocket = sockets ?st, username = String_trim sample_runtime '' carol '',
                            quit = False\<rparr>)]
      \<and> take (length ?with_carol) ?calls = take (length ?with_carol) ?calls"
    by (simp add: trim two_arrivals_run upgrade_request_def)
  have h2: "map_of (listeners ?st) 1 = Some ''bob'' \<and> (Close 1 = Close 1 \<or> Close 1 = Error 1)
      \<and> ?without_bob = filter (\<lambda>e. fst e \<noteq> 1) (sessions ?st)
      \<and> take (length ?without_bob) ?calls' = take (length ?without_bob) ?calls'"
    by (simp add: two_arrivals_run lobby_def)
  from roster [THEN conjunct1, rule_format, OF h1]
  have admitted: "map target (take 3 ?calls) = map fst ?with_carol"
    "map payload (take 3 ?calls) = replicate 3
            (JSON_stringify sample_runtime (UserListMessage (map (username \<circ> snd) ?with_carol)))"
    unfolding three by simp_all
  from roster [THEN conjunct2, THEN conjunct1, rule_format, OF h2]
  have evicted: "map target (take 1 ?calls') = map fst ?without_bob"
    "map payload (take 1 ?calls') = replicate 1
            (JSON_stringify sample_runtime (UserListMessage (map (username \<circ> snd) ?without_bob)))"
    unfolding one by simp_all
  have names: "map (username \<circ> snd) (sessions ?st) = [''alice'', ''bob'']"
    by (simp add: two_arrivals_run lobby_def)
  have p3: \<open>replicate 3 (JSON_stringify sample_runtime (UserListMessage (map (username \<circ> snd) ?with_carol))) =
       [''{"type":"userList","users":["alice","bob","carol"]}'',
        ''{"type":"userList","users":["alice","bob","carol"]}'',
        ''{"type":"userList","users":["alice","bob","carol"]}'']\<close>
    by (simp add: lobby_def sample_runtime_fields UserListMessage_def quote_def numeral_3_eq_3)
  have p1: \<open>replicate 1 (JSON_stringify sample_runtime (UserListMessage (map (username \<circ> snd) ?without_bob))) =
       [''{"type":"userList","users":["alice"]}'']\<close>
    by (simp add: sample_runtime_fields UserListMessage_def quote_def)
  have t3: "map fst ?with_carol = [0, 1, 2]"
    by (simp add: lobby_def)
  show ?thesis
    using names trim' admitted evicted unfolding p3 p1 t3
    by simp
qed

section \<open>A send that fails\<close>

lemma thrown_send_evicts:
  assumes "i < length (sessions st)"
    and "send_throws rt (length (wire st) + i) (webSocket (snd (sessions st ! i)))"
  shows "fst (sessions st ! i) \<notin> fst ` set (sessions (broadcast rt message st))"
proof -
  let ?mark = "\<lambda>(n, e). (fst e, if send_throws rt n (webSocket (snd e)) then (snd e)\<lparr>quit := True\<rparr> else snd e)"
  let ?en = "enumerate (length (wire st)) (sessions st)"
  have "(length (wire st) + i, sessions st ! i) \<in> set ?en"
    using assms(1) by (simp add: in_set_enumerate_eq)
  then have "?mark (length (wire st) + i, sessions st ! i) \<in> set (map ?mark ?en)"
    unfolding set_map by (rule imageI)
  then have "(fst (sessions st ! i), (snd (sessions st ! i))\<lparr>quit := True\<rparr>) \<in> set (map ?mark ?en)"
    using assms(2) by simp
  from sweep_removes [OF this] show ?thesis
    by (simp add: sessions_broadcast)
qed

lemma gone_for_good:
  assumes "registry_ok st" and "S < sockets st" and "S \<notin> fst ` set (sessions st)"
  shows "registry_ok (foldl (react rt) st events)
       \<and> S < sockets (foldl (react rt) st events)
       \<and> S \<notin> fst ` set (sessions (foldl (react rt) st events))"
proof (induction events rule: rev_induct)
  case Nil
  from assms show ?case by simp
next
  case (snoc ev events)
  let ?st = "foldl (react rt) st events"
  from snoc have ok: "registry_ok ?st" and lt: "S < sockets ?st"
    and out: "S \<notin> fst ` set (sessions ?st)"
    by simp_all
  from react_step [OF ok, of rt ev] lt out show ?case
    by (auto simp: less_Suc_eq)
qed


text \<open>
  A call of \<open>send\<close> that a broadcast makes and that throws is a call on the socket of a
  registered session, and that socket is no key of the registry when the broadcast returns.
\<close>

lemma failed_call_of_broadcast:
  assumes "registry_ok s"
    and "c \<in> set (drop (length (wire s)) (wire (broadcast rt message s)))"
    and "\<not> accepted c"
  shows "target c \<in> fst ` set (sessions s) \<and> target c \<notin> fst ` set (sessions (broadcast rt message s))"
proof -
  from assms(2) obtain k e where ke: "(k, e) \<in> set (enumerate (length (wire s)) (sessions s))"
    and c: "c = \<lparr>target = webSocket (snd e), payload = JSON_stringify rt message,
                   accepted = \<not> send_throws rt k (webSocket (snd e))\<rparr>"
    by (auto simp: wire_broadcast)
  define i where "i = k - length (wire s)"
  from ke have i: "i < length (sessions s)" and k: "k = length (wire s) + i"
    and e: "e = sessions s ! i"
    by (auto simp: in_set_enumerate_eq i_def)
  have mem: "e \<in> set (sessions s)"
    using i e by simp
  with assms(1) have key: "webSocket (snd e) = fst e"
    by (auto simp: registry_ok_def list_all_iff)
  from assms(3) c have "send_throws rt (length (wire s) + i) (webSocket (snd (sessions s ! i)))"
    by (simp add: k e)
  from thrown_send_evicts [OF i this, of message] mem key c e show ?thesis
    by auto
qed

lemma failed_call_of_two_broadcasts:
  assumes "registry_ok s1"
    and "c \<in> set (drop (length (wire s1))
            (wire (broadcast rt m2 ((broadcast rt m1 s1)\<lparr>dates := d\<rparr>))))"
    and "\<not> accepted c"
  shows "target c \<in> fst ` set (sessions s1)
       \<and> target c \<notin> fst ` set (sessions (broadcast rt m2 ((broadcast rt m1 s1)\<lparr>dates := d\<rparr>)))"
proof -
  let ?s2 = "broadcast rt m1 s1"
  let ?s3 = "?s2\<lparr>dates := d\<rparr>"
  let ?s4 = "broadcast rt m2 ?s3"
  have ok3: "registry_ok ?s3"
    using registry_ok_broadcast [OF assms(1), of rt m1] by simp
  have sub4: "fst ` set (sessions ?s4) \<subseteq> fst ` set (sessions ?s2)"
    using keys_of_broadcast [of rt m2 ?s3] by simp
  have sub2: "fst ` set (sessions ?s2) \<subseteq> fst ` set (sessions s1)"
    by (rule keys_of_broadcast)
  obtain new1 where w2: "wire ?s2 = wire s1 @ new1"
    by (simp add: wire_broadcast)
  obtain new2 where w4: "wire ?s4 = wire ?s3 @ new2"
    by (simp add: wire_broadcast)
  have w3: "wire ?s3 = wire s1 @ new1"
    using w2 by simp
  have "drop (length (wire s1)) (wire ?s4) =
      drop (length (wire s1)) (wire ?s2) @ drop (length (wire ?s3)) (wire ?s4)"
    unfolding w4 w3 w2 by simp
  with assms(2) consider "c \<in> set (drop (length (wire s1)) (wire ?s2))"
    | "c \<in> set (drop (length (wire ?s3)) (wire ?s4))"
    by auto
  then show ?thesis
  proof cases
    case 1
    from failed_call_of_broadcast [OF assms(1) 1 assms(3)] sub4 show ?thesis
      by auto
  next
    case 2
    from failed_call_of_broadcast [OF ok3 2 assms(3)] sub2 show ?thesis
      by auto
  qed
qed


lemma handleSession_eq:
  "handleSession rt ws name st =
     (broadcast rt (ChatMessage ''System'' (JStr (name @ '' joined the chat'')) (toISOString rt (dates st)))
        ((broadcast rt
            (UserListMessage (roster (st\<lparr>sessions :=
               Map_set ws \<lparr>webSocket = ws, username = name, quit = False\<rparr> (sessions st)\<rparr>)))
            (st\<lparr>sessions := Map_set ws \<lparr>webSocket = ws, username = name, quit = False\<rparr> (sessions st)\<rparr>))
         \<lparr>dates := Suc (dates st)\<rparr>))
     \<lparr>listeners := listeners st @ [(ws, name)]\<rparr>"
  by (simp add: handleSession_def Let_def new_Date_def broadcastUserList_def)

text \<open>
  In a reaction that sends through \<open>broadcast\<close> only, the socket of every call of \<open>send\<close>
  that threw is no key of the registry when the reaction is over, and it is a socket that
  \<open>fetch\<close> created.
\<close>

lemma failed_call_of_reaction:
  assumes ok: "registry_ok st" and "relays rt ev"
    and c: "c \<in> set (drop (length (wire st)) (wire (react rt st ev)))" and f: "\<not> accepted c"
  shows "target c \<notin> fst ` set (sessions (react rt st ev)) \<and> target c < sockets (react rt st ev)"
proof (cases ev)
  case (Fetch request)
  from fetch_cases [of rt request st] show ?thesis
  proof
    assume "snd (fetch rt request st) = st"
    with c Fetch show ?thesis by simp
  next
    assume "\<exists>raw. username_param request = Some raw \<and> snd (fetch rt request st) =
        handleSession rt (sockets st) (String_trim rt raw) (st\<lparr>sockets := Suc (sockets st)\<rparr>)"
    then obtain raw where eq: "react rt st ev =
        handleSession rt (sockets st) (String_trim rt raw) (st\<lparr>sockets := Suc (sockets st)\<rparr>)"
      using Fetch by auto
    let ?s1 = "st\<lparr>sockets := Suc (sockets st),
                  sessions := Map_set (sockets st)
                     \<lparr>webSocket = sockets st, username = String_trim rt raw, quit = False\<rparr> (sessions st)\<rparr>"
    have ok1: "registry_ok ?s1"
      by (rule registry_ok_admit [OF ok])
    from c have "c \<in> set (drop (length (wire ?s1))
        (wire (broadcast rt (ChatMessage ''System'' (JStr (String_trim rt raw @ '' joined the chat''))
                  (toISOString rt (dates st)))
           ((broadcast rt (UserListMessage (roster ?s1)) ?s1)\<lparr>dates := Suc (dates st)\<rparr>))))"
      unfolding eq handleSession_eq by simp
    from failed_call_of_two_broadcasts [OF ok1 this f] ok1 show ?thesis
      unfolding eq handleSession_eq by (auto simp: registry_ok_def list_all_iff)
  qed
next
  case (Message ws msg_data)
  show ?thesis
  proof (cases "map_of (listeners st) ws")
    case None
    with c Message show ?thesis by simp
  next
    case (Some name)
    from assms(2) Message obtain frame data where m: "msg_data = TextFrame frame"
      and p: "JSON_parse rt frame = Some data" and t: "read_prop data ''type'' = JStr ''message''"
      and v: "truthy (read_prop data ''text'')"
      by (cases msg_data) (auto split: option.splits)
    let ?s1 = "st\<lparr>dates := Suc (dates st)\<rparr>"
    let ?m = "ChatMessage name (read_prop data ''text'') (toISOString rt (dates st))"
    have eq: "react rt st ev = broadcast rt ?m ?s1"
      using Message Some m on_message_chat [OF p t v, of ws name st] by simp
    have ok1: "registry_ok ?s1"
      using ok by simp
    from c have "c \<in> set (drop (length (wire ?s1)) (wire (broadcast rt ?m ?s1)))"
      unfolding eq by simp
    from failed_call_of_broadcast [OF ok1 this f] ok show ?thesis
      unfolding eq by (auto simp: registry_ok_def list_all_iff)
  qed
next
  case (Close ws)
  show ?thesis
  proof (cases "map_of (listeners st) ws")
    case None
    with c Close show ?thesis by simp
  next
    case (Some name)
    let ?s1 = "st\<lparr>sessions := filter (\<lambda>e. fst e \<noteq> ws) (sessions st)\<rparr>"
    have ok1: "registry_ok ?s1"
      by (rule registry_ok_filter [OF ok])
    have eq: "react rt st ev =
        broadcast rt (ChatMessage ''System'' (JStr (name @ '' left the chat'')) (toISOString rt (dates st)))
          ((broadcast rt (UserListMessage (roster ?s1)) ?s1)\<lparr>dates := Suc (dates st)\<rparr>)"
      using Close Some by (simp add: on_close_eq broadcastUserList_def)
    from c have "c \<in> set (drop (length (wire ?s1))
        (wire (broadcast rt (ChatMessage ''System'' (JStr (name @ '' left the chat'')) (toISOString rt (dates st)))
          ((broadcast rt (UserListMessage (roster ?s1)) ?s1)\<lparr>dates := Suc (dates st)\<rparr>))))"
      unfolding eq by simp
    from failed_call_of_two_broadcasts [OF ok1 this f] ok1 show ?thesis
      unfolding eq by (auto simp: registry_ok_def list_all_iff)
  qed
next
  case (Error ws)
  show ?thesis
  proof (cases "map_of (listeners st) ws")
    case None
    with c Error show ?thesis by simp
  next
    case (Some name)
    let ?s1 = "st\<lparr>sessions := filter (\<lambda>e. fst e \<noteq> ws) (sessions st)\<rparr>"
    have ok1: "registry_ok ?s1"
      by (rule registry_ok_filter [OF ok])
    have eq: "react rt st ev = broadcast rt (UserListMessage (roster ?s1)) ?s1"
      using Error Some by (simp add: on_error_eq broadcastUserList_def)
    from c have "c \<in> set (drop (length (wire ?s1)) (wire (broadcast rt (UserListMessage (roster ?s1)) ?s1)))"
      unfolding eq by simp
    from failed_call_of_broadcast [OF ok1 this f] ok1 show ?thesis
      unfolding eq by (auto simp: registry_ok_def list_all_iff)
  qed
qed


text \<open>
  Claim C5. First, one broadcast, from any state: when the call of \<open>send\<close> for the
  \<open>i\<close>-th session throws, the socket of that session is no key of the registry when the
  broadcast returns; and when the broadcast is the one the message listener makes for a
  chat frame, the listener returns, without an exception, and the only texts it has sent
  are the copies of the chat message, one per session, none of them an error message: the
  sender learns nothing of the failure.

  Second, the room as it runs. Let \<open>st\<close> be a state it has reached, \<open>ev\<close> an event whose
  reaction sends through \<open>broadcast\<close> only, and \<open>c\<close> a call of \<open>send\<close> of that reaction
  that threw. Then the socket of \<open>c\<close> is no key of the registry when the whole reaction is
  over, whatever the reaction did after the broadcast that made the call, and it is no key
  in any state \<open>later\<close> the room reaches from there. The next \<open>userList\<close> is sent when a
  request is admitted or a close or error signal arrives in such a state: its calls go to
  \<open>members\<close>, the registry after the change, they carry the usernames of \<open>members\<close> and
  no other, and the socket of \<open>c\<close> is not among \<open>members\<close>.
\<close>

theorem failed_send_evicts_the_session:
  "(i < length (sessions s)
      \<and> send_throws rt (length (wire s) + i) (webSocket (snd (sessions s ! i)))
    \<longrightarrow> fst (sessions s ! i) \<notin> fst ` set (sessions (broadcast rt message s))
        \<and> (JSON_parse rt frame = Some data \<and> read_prop data ''type'' = JStr ''message''
              \<and> truthy (read_prop data ''text'')
            \<longrightarrow> fst (on_message rt ws name (TextFrame frame) s) = Returned
                \<and> map payload (drop (length (wire s))
                      (wire (snd (on_message rt ws name (TextFrame frame) s)))) =
                    replicate (length (sessions s))
                      (JSON_stringify rt (ChatMessage name (read_prop data ''text'')
                                            (toISOString rt (dates s))))
                \<and> fst (sessions s ! i)
                    \<notin> fst ` set (sessions (snd (on_message rt ws name (TextFrame frame) s)))))
   \<and> (st = run rt events \<and> relays rt ev
        \<and> c \<in> set (drop (length (wire st)) (wire (react rt st ev))) \<and> \<not> accepted c
        \<and> later = foldl (react rt) (react rt st ev) further
      \<longrightarrow> target c \<notin> fst ` set (sessions (react rt st ev))
          \<and> target c \<notin> fst ` set (sessions later)
          \<and> (Upgrade request = Some ''websocket'' \<and> username_param request = Some raw \<and> raw \<noteq> []
                \<and> String_trim rt raw \<noteq> []
                \<and> members = sessions later @
                     [(sockets later,
                       \<lparr>webSocket = sockets later, username = String_trim rt raw, quit = False\<rparr>)]
                \<and> sent = take (length members)
                     (drop (length (wire later)) (wire (react rt later (Fetch request))))
              \<longrightarrow> target c \<notin> fst ` set members
                  \<and> map target sent = map fst members
                  \<and> map payload sent = replicate (length members)
                        (JSON_stringify rt (UserListMessage (map (username \<circ> snd) members))))
          \<and> (map_of (listeners later) ws' = Some name' \<and> (ev' = Close ws' \<or> ev' = Error ws')
                \<and> members' = filter (\<lambda>e. fst e \<noteq> ws') (sessions later)
                \<and> sent' = take (length members')
                     (drop (length (wire later)) (wire (react rt later ev')))
              \<longrightarrow> target c \<notin> fst ` set members'
                  \<and> map target sent' = map fst members'
                  \<and> map payload sent' = replicate (length members')
                        (JSON_stringify rt (UserListMessage (map (username \<circ> snd) members')))))"
proof (intro conjI impI)
  assume a: "i < length (sessions s)
      \<and> send_throws rt (length (wire s) + i) (webSocket (snd (sessions s ! i)))"
  then show "fst (sessions s ! i) \<notin> fst ` set (sessions (broadcast rt message s))"
    by (simp add: thrown_send_evicts)
  assume chat: "JSON_parse rt frame = Some data \<and> read_prop data ''type'' = JStr ''message''
              \<and> truthy (read_prop data ''text'')"
  let ?message = "ChatMessage name (read_prop data ''text'') (toISOString rt (dates s))"
  let ?s1 = "s\<lparr>dates := Suc (dates s)\<rparr>"
  have eq: "on_message rt ws name (TextFrame frame) s = (Returned, broadcast rt ?message ?s1)"
    using chat by (simp add: on_message_chat)
  show "fst (on_message rt ws name (TextFrame frame) s) = Returned"
    by (simp add: eq)
  show "map payload (drop (length (wire s)) (wire (snd (on_message rt ws name (TextFrame frame) s)))) =
          replicate (length (sessions s)) (JSON_stringify rt ?message)"
    using payloads_broadcast [of ?s1 rt ?message] by (simp add: eq)
  show "fst (sessions s ! i) \<notin> fst ` set (sessions (snd (on_message rt ws name (TextFrame frame) s)))"
    using thrown_send_evicts [of i ?s1 rt ?message] a by (simp add: eq)
next
  assume b: "st = run rt events \<and> relays rt ev
        \<and> c \<in> set (drop (length (wire st)) (wire (react rt st ev))) \<and> \<not> accepted c
        \<and> later = foldl (react rt) (react rt st ev) further"
  have ok: "registry_ok st"
    using run_ok [of rt events] b by simp
  from b have rel: "relays rt ev" and mem: "c \<in> set (drop (length (wire st)) (wire (react rt st ev)))"
    and thrown: "\<not> accepted c"
    by blast+
  from failed_call_of_reaction [OF ok rel mem thrown]
  have out: "target c \<notin> fst ` set (sessions (react rt st ev))"
    and lt: "target c < sockets (react rt st ev)"
    by blast+
  have ok': "registry_ok (react rt st ev)"
    using react_step [OF ok, of rt ev] by simp
  from gone_for_good [OF ok' lt out, of rt further] b
  have okl: "registry_ok later" and ltl: "target c < sockets later"
    and outl: "target c \<notin> fst ` set (sessions later)"
    by simp_all
  show "target c \<notin> fst ` set (sessions (react rt st ev))"
    by (rule out)
  show "target c \<notin> fst ` set (sessions later)"
    by (rule outl)
  {
    assume a: "Upgrade request = Some ''websocket'' \<and> username_param request = Some raw \<and> raw \<noteq> []
                \<and> String_trim rt raw \<noteq> []
                \<and> members = sessions later @
                     [(sockets later,
                       \<lparr>webSocket = sockets later, username = String_trim rt raw, quit = False\<rparr>)]
                \<and> sent = take (length members)
                     (drop (length (wire later)) (wire (react rt later (Fetch request))))"
    from a ltl outl show "target c \<notin> fst ` set members"
      by auto
    from roster_after_admission [OF okl a]
    show "map target sent = map fst members"
      and "map payload sent = replicate (length members)
             (JSON_stringify rt (UserListMessage (map (username \<circ> snd) members)))"
      by simp_all
  }
  {
    assume a: "map_of (listeners later) ws' = Some name' \<and> (ev' = Close ws' \<or> ev' = Error ws')
                \<and> members' = filter (\<lambda>e. fst e \<noteq> ws') (sessions later)
                \<and> sent' = take (length members')
                     (drop (length (wire later)) (wire (react rt later ev')))"
    from a outl show "target c \<notin> fst ` set members'"
      by auto
    from roster_after_eviction [OF okl a]
    show "map target sent' = map fst members'"
      and "map payload sent' = replicate (length members')
             (JSON_stringify rt (UserListMessage (map (username \<circ> snd) members')))"
      by simp_all
  }
qed


text \<open>
  On the sample platform every send to socket 2 throws. In the crowd a broadcast removes
  carol, and alice's chat frame is sent to all three while her listener returns. In the
  run, carol is admitted after alice and bob: the roster broadcast of her own admission
  throws on her socket and removes her, the join notice that follows in the same reaction
  does not bring her back, and when dave is admitted next the roster goes to alice, bob and
  dave and names them only.
\<close>

lemma carol_arrives:
  "sessions (react sample_runtime (run sample_runtime two_arrivals) (Fetch (upgrade_request ''carol''))) =
     sessions lobby"
  "sockets (react sample_runtime (run sample_runtime two_arrivals) (Fetch (upgrade_request ''carol''))) = 3"
  "listeners (react sample_runtime (run sample_runtime two_arrivals) (Fetch (upgrade_request ''carol''))) =
     listeners lobby @ [(2, ''carol'')]"
  "take 3 (drop (length (wire (run sample_runtime two_arrivals)))
        (wire (react sample_runtime (run sample_runtime two_arrivals) (Fetch (upgrade_request ''carol''))))) =
     [\<lparr>target = 0, payload = JSON_stringify sample_runtime (UserListMessage [''alice'', ''bob'', ''carol'']),
        accepted = True\<rparr>,
      \<lparr>target = 1, payload = JSON_stringify sample_runtime (UserListMessage [''alice'', ''bob'', ''carol'']),
        accepted = True\<rparr>,
      \<lparr>target = 2, payload = JSON_stringify sample_runtime (UserListMessage [''alice'', ''bob'', ''carol'']),
        accepted = False\<rparr>]"
  by (simp_all add: upgrade_request_def fetch_def handleSession_def broadcastUserList_def
      roster_def sessions_broadcast wire_broadcast sweep_def Map_set_def Map_delete_def new_Date_def
      sample_runtime_fields sample_trim_def two_arrivals_run lobby_def Let_def numeral_3_eq_3)

theorem failed_send_evicts_the_session_witness:
  \<open>send_throws sample_runtime (length (wire crowd) + 2) (webSocket (snd (sessions crowd ! 2)))
   \<and> fst (sessions crowd ! 2) = 2
   \<and> map fst (sessions (broadcast sample_runtime (UserListMessage [''alice'', ''bob'', ''carol'']) crowd)) = [0, 1]
   \<and> JSON_parse sample_runtime ''{"type":"message","text":"hi"}'' =
       Some (JObj [(''type'', JStr ''message''), (''text'', JStr ''hi'')])
   \<and> fst (on_message sample_runtime 0 ''alice'' (TextFrame ''{"type":"message","text":"hi"}'') crowd) = Returned
   \<and> map (\<lambda>c. (target c, payload c, accepted c))
         (wire (snd (on_message sample_runtime 0 ''alice'' (TextFrame ''{"type":"message","text":"hi"}'') crowd))) =
       [(0, ''{"type":"message","username":"alice","text":"hi","timestamp":"2024-01-01T00:00:00.000Z"}'', True),
        (1, ''{"type":"message","username":"alice","text":"hi","timestamp":"2024-01-01T00:00:00.000Z"}'', True),
        (2, ''{"type":"message","username":"alice","text":"hi","timestamp":"2024-01-01T00:00:00.000Z"}'', False)]
   \<and> map fst (sessions (snd (on_message sample_runtime 0 ''alice''
                                  (TextFrame ''{"type":"message","text":"hi"}'') crowd))) = [0, 1]
   \<and> relays sample_runtime (Fetch (upgrade_request ''carol''))
   \<and> \<lparr>target = 2, payload = ''{"type":"userList","users":["alice","bob","carol"]}'', accepted = False\<rparr>
       \<in> set (drop (length (wire (run sample_runtime two_arrivals)))
                (wire (react sample_runtime (run sample_runtime two_arrivals)
                         (Fetch (upgrade_request ''carol'')))))
   \<and> map fst (sessions (react sample_runtime (run sample_runtime two_arrivals)
                           (Fetch (upgrade_request ''carol'')))) = [0, 1]
   \<and> map target
         (take 3 (drop (length (wire (react sample_runtime (run sample_runtime two_arrivals)
                                        (Fetch (upgrade_request ''carol'')))))
            (wire (react sample_runtime
                     (react sample_runtime (run sample_runtime two_arrivals)
                        (Fetch (upgrade_request ''carol'')))
                     (Fetch (upgrade_request ''dave'')))))) =
       [0, 1, 3]
   \<and> map payload
         (take 3 (drop (length (wire (react sample_runtime (run sample_runtime two_arrivals)
                                        (Fetch (upgrade_request ''carol'')))))
            (wire (react sample_runtime
                     (react sample_runtime (run sample_runtime two_arrivals)
                        (Fetch (upgrade_request ''carol'')))
                     (Fetch (upgrade_request ''dave'')))))) =
       replicate 3 ''{"type":"userList","users":["alice","bob","dave"]}''
   \<and> map target
         (take 1 (drop (length (wire (react sample_runtime (run sample_runtime two_arrivals)
                                        (Fetch (upgrade_request ''carol'')))))
            (wire (react sample_runtime
                     (react sample_runtime (run sample_runtime two_arrivals)
                        (Fetch (upgrade_request ''carol'')))
                     (Close 1))))) =
       [0]
   \<and> map payload
         (take 1 (drop (length (wire (react sample_runtime (run sample_runtime two_arrivals)
                                        (Fetch (upgrade_request ''carol'')))))
            (wire (react sample_runtime
                     (react sample_runtime (run sample_runtime two_arrivals)
                        (Fetch (upgrade_request ''carol'')))
                     (Close 1))))) =
       replicate 1 ''{"type":"userList","users":["alice"]}''\<close>
proof -
  let ?R = "run sample_runtime two_arrivals"
  let ?L = "react sample_runtime ?R (Fetch (upgrade_request ''carol''))"
  let ?roster = "UserListMessage [''alice'', ''bob'', ''carol'']"
  let ?c = "\<lparr>target = 2, payload = JSON_stringify sample_runtime ?roster, accepted = False\<rparr>"
  let ?data = "JObj [(''type'', JStr ''message''), (''text'', JStr ''hi'')]"
  let ?dave = "\<lparr>webSocket = 3, username = ''dave'', quit = False\<rparr>"
  let ?members = "sessions lobby @ [(3, ?dave)]"
  let ?calls = "drop (length (wire ?L)) (wire (react sample_runtime ?L (Fetch (upgrade_request ''dave''))))"
  let ?members' = "[(0 :: nat, \<lparr>webSocket = 0, username = ''alice'', quit = False\<rparr>)]"
  let ?calls' = "drop (length (wire ?L)) (wire (react sample_runtime ?L (Close 1)))"
  note evict = failed_send_evicts_the_session [where rt = sample_runtime and s = crowd and i = 2
      and message = ?roster and frame = \<open>''{"type":"message","text":"hi"}''\<close> and data = ?data
      and ws = 0 and name = "''alice''" and st = ?R and events = two_arrivals
      and ev = "Fetch (upgrade_request ''carol'')" and c = ?c and later = ?L and further = "[]"
      and request = "upgrade_request ''dave''" and raw = "''dave''" and members = ?members
      and sent = "take (length ?members) ?calls" and ws' = 1 and name' = "''bob''" and ev' = "Close 1"
      and members' = ?members' and sent' = "take (length ?members') ?calls'"]
  have h1: "2 < length (sessions crowd)
      \<and> send_throws sample_runtime (length (wire crowd) + 2) (webSocket (snd (sessions crowd ! 2)))"
    by (simp add: sample_runtime_fields crowd_def)
  have key: "fst (sessions crowd ! 2) = 2"
    by (simp add: crowd_def)
  have p: \<open>JSON_parse sample_runtime ''{"type":"message","text":"hi"}'' = Some ?data\<close>
    by (simp add: sample_runtime_fields sample_parse_def)
  have chat: \<open>JSON_parse sample_runtime ''{"type":"message","text":"hi"}'' = Some ?data
      \<and> read_prop ?data ''type'' = JStr ''message'' \<and> truthy (read_prop ?data ''text'')\<close>
    using p by simp
  note one = evict [THEN conjunct1, rule_format, OF h1]
  note listener = one [THEN conjunct2, rule_format, OF chat]
  have b: "sessions (broadcast sample_runtime ?roster crowd) = sessions lobby"
    by (simp add: sessions_broadcast sweep_def Map_delete_def sample_runtime_fields crowd_def lobby_def)
  have w3: "map fst (sessions (broadcast sample_runtime ?roster crowd)) = [0, 1]"
    using one [THEN conjunct1] by (simp add: b lobby_def)
  have w5: \<open>fst (on_message sample_runtime 0 ''alice'' (TextFrame ''{"type":"message","text":"hi"}'') crowd) = Returned\<close>
    by (rule listener [THEN conjunct1])
  have run: \<open>on_message sample_runtime 0 ''alice'' (TextFrame ''{"type":"message","text":"hi"}'') crowd =
       (Returned,
        \<lparr>sessions = sessions lobby,
         wire = [\<lparr>target = 0, payload = ''{"type":"message","username":"alice","text":"hi","timestamp":"2024-01-01T00:00:00.000Z"}'', accepted = True\<rparr>,
                 \<lparr>target = 1, payload = ''{"type":"message","username":"alice","text":"hi","timestamp":"2024-01-01T00:00:00.000Z"}'', accepted = True\<rparr>,
                 \<lparr>target = 2, payload = ''{"type":"message","username":"alice","text":"hi","timestamp":"2024-01-01T00:00:00.000Z"}'', accepted = False\<rparr>],
         dates = 1, listeners = listeners crowd, sockets = 3\<rparr>)\<close>
    by (simp add: on_message_def try_block_def new_Date_def broadcast_def sweep_def Map_delete_def
        send_def sample_runtime_fields sample_parse_def sample_clock_def ChatMessage_def quote_def
        crowd_def lobby_def Let_def)
  have w6: \<open>map (\<lambda>c. (target c, payload c, accepted c))
         (wire (snd (on_message sample_runtime 0 ''alice'' (TextFrame ''{"type":"message","text":"hi"}'') crowd))) =
       [(0, ''{"type":"message","username":"alice","text":"hi","timestamp":"2024-01-01T00:00:00.000Z"}'', True),
        (1, ''{"type":"message","username":"alice","text":"hi","timestamp":"2024-01-01T00:00:00.000Z"}'', True),
        (2, ''{"type":"message","username":"alice","text":"hi","timestamp":"2024-01-01T00:00:00.000Z"}'', False)]\<close>
    and w7: \<open>map fst (sessions (snd (on_message sample_runtime 0 ''alice''
                                  (TextFrame ''{"type":"message","text":"hi"}'') crowd))) = [0, 1]\<close>
    unfolding run by (simp_all add: lobby_def)
  have rel: "relays sample_runtime (Fetch (upgrade_request ''carol''))"
    by simp
  have "?c \<in> set (take 3 (drop (length (wire ?R)) (wire ?L)))"
    unfolding carol_arrives by simp
  then have mem: "?c \<in> set (drop (length (wire ?R)) (wire ?L))"
    by (rule in_set_takeD)
  have h2: "?R = run sample_runtime two_arrivals \<and> relays sample_runtime (Fetch (upgrade_request ''carol''))
      \<and> ?c \<in> set (drop (length (wire ?R)) (wire ?L)) \<and> \<not> accepted ?c
      \<and> ?L = foldl (react sample_runtime) ?L []"
    using rel mem by simp
  note two = evict [THEN conjunct2, rule_format, OF h2]
  have trim: "String_trim sample_runtime ''dave'' = ''dave''"
    by (simp add: sample_runtime_fields sample_trim_def)
  have h3a: "Upgrade (upgrade_request ''dave'') = Some ''websocket''
      \<and> username_param (upgrade_request ''dave'') = Some ''dave'' \<and> ''dave'' \<noteq> []
      \<and> String_trim sample_runtime ''dave'' \<noteq> []"
    by (simp add: trim upgrade_request_def)
  have h3b: "?members = sessions ?L @
           [(sockets ?L, \<lparr>webSocket = sockets ?L, username = String_trim sample_runtime ''dave'',
                            quit = False\<rparr>)]"
    unfolding carol_arrives trim by simp
  have h3: "Upgrade (upgrade_request ''dave'') = Some ''websocket''
      \<and> username_param (upgrade_request ''dave'') = Some ''dave'' \<and> ''dave'' \<noteq> []
      \<and> String_trim sample_runtime ''dave'' \<noteq> []
      \<and> ?members = sessions ?L @
           [(sockets ?L, \<lparr>webSocket = sockets ?L, username = String_trim sample_runtime ''dave'',
                            quit = False\<rparr>)]
      \<and> take (length ?members) ?calls = take (length ?members) ?calls"
    using h3a h3b by blast
  have h4a: "map_of (listeners ?L) 1 = Some ''bob''"
    and h4b: "?members' = filter (\<lambda>e. fst e \<noteq> 1) (sessions ?L)"
    unfolding carol_arrives by (simp_all add: lobby_def)
  have h4: "map_of (listeners ?L) 1 = Some ''bob'' \<and> (Close 1 = Close 1 \<or> Close 1 = Error 1)
      \<and> ?members' = filter (\<lambda>e. fst e \<noteq> 1) (sessions ?L)
      \<and> take (length ?members') ?calls' = take (length ?members') ?calls'"
    using h4a h4b by blast
  note next_admission = two [THEN conjunct2, THEN conjunct2, THEN conjunct1, rule_format, OF h3]
  note next_eviction = two [THEN conjunct2, THEN conjunct2, THEN conjunct2, rule_format, OF h4]
  have three: "length ?members = 3" and one': "length ?members' = 1"
    by (simp_all add: lobby_def)
  have w10: "map fst (sessions ?L) = [0, 1]"
    unfolding carol_arrives by (simp add: lobby_def)
  have pc: \<open>JSON_stringify sample_runtime ?roster = ''{"type":"userList","users":["alice","bob","carol"]}''\<close>
    by (simp add: sample_runtime_fields UserListMessage_def quote_def)
  have pd: \<open>JSON_stringify sample_runtime (UserListMessage (map (username \<circ> snd) ?members)) =
      ''{"type":"userList","users":["alice","bob","dave"]}''\<close>
    by (simp add: sample_runtime_fields UserListMessage_def quote_def lobby_def)
  have pa: \<open>JSON_stringify sample_runtime (UserListMessage (map (username \<circ> snd) ?members')) =
      ''{"type":"userList","users":["alice"]}''\<close>
    by (simp add: sample_runtime_fields UserListMessage_def quote_def)
  have t11: "map target (take 3 ?calls) = [0, 1, 3]"
    and p11: \<open>map payload (take 3 ?calls) = replicate 3 ''{"type":"userList","users":["alice","bob","dave"]}''\<close>
    using next_admission unfolding three pd by (simp_all add: lobby_def)
  have t12: "map target (take 1 ?calls') = [0]"
    and p12: \<open>map payload (take 1 ?calls') = replicate 1 ''{"type":"userList","users":["alice"]}''\<close>
    using next_eviction unfolding one' pa by simp_all
  from h1 [THEN conjunct2] key w3 p w5 w6 w7 rel mem [unfolded pc] w10 t11 p11 t12 p12
  show ?thesis
    by blast
qed

section \<open>Close and error signals\<close>

text \<open>
  The close listener evicts the session, broadcasts the roster to the sessions that remain,
  and then broadcasts the departure notice to those of them whose roster send did not throw.
\<close>

lemma close_signal_evicts_and_announces:
  "ws \<notin> fst ` set (sessions (on_close rt ws name st))
   \<and> map payload (drop (length (wire st)) (wire (on_close rt ws name st))) =
       replicate (length (filter (\<lambda>e. fst e \<noteq> ws) (sessions st)))
         (JSON_stringify rt
            (UserListMessage (roster (st\<lparr>sessions := filter (\<lambda>e. fst e \<noteq> ws) (sessions st)\<rparr>))))
       @ replicate
           (length (sessions (broadcastUserList rt
              (st\<lparr>sessions := filter (\<lambda>e. fst e \<noteq> ws) (sessions st)\<rparr>))))
           (JSON_stringify rt
              (ChatMessage ''System'' (JStr (name @ '' left the chat'')) (toISOString rt (dates st))))"
proof
  let ?st1 = "st\<lparr>sessions := filter (\<lambda>e. fst e \<noteq> ws) (sessions st)\<rparr>"
  let ?st3 = "(broadcastUserList rt ?st1)\<lparr>dates := Suc (dates st)\<rparr>"
  let ?notice = "ChatMessage ''System'' (JStr (name @ '' left the chat'')) (toISOString rt (dates st))"
  have sub: "fst ` set (sessions (broadcast rt m s)) \<subseteq> fst ` set (sessions s)" for m s
    by (rule keys_of_broadcast)
  have "fst ` set (sessions (on_close rt ws name st)) \<subseteq> fst ` set (sessions ?st3)"
    unfolding on_close_eq by (rule sub)
  also have "\<dots> \<subseteq> fst ` set (sessions ?st1)"
    using sub [of "UserListMessage (roster ?st1)" ?st1] by (simp add: broadcastUserList_def)
  finally show "ws \<notin> fst ` set (sessions (on_close rt ws name st))"
    by auto
  have w1: "wire ?st3 = wire st @ drop (length (wire st)) (wire (broadcastUserList rt ?st1))"
    by (simp add: broadcastUserList_def wire_broadcast)
  have w2: "wire (on_close rt ws name st) = wire ?st3 @ drop (length (wire ?st3)) (wire (broadcast rt ?notice ?st3))"
    unfolding on_close_eq by (simp add: wire_broadcast)
  have p1: "map payload (drop (length (wire st)) (wire (broadcastUserList rt ?st1))) =
      replicate (length (sessions ?st1)) (JSON_stringify rt (UserListMessage (roster ?st1)))"
    using payloads_broadcast [of ?st1 rt "UserListMessage (roster ?st1)"]
    by (simp add: broadcastUserList_def)
  have p2: "map payload (drop (length (wire ?st3)) (wire (broadcast rt ?notice ?st3))) =
      replicate (length (sessions ?st3)) (JSON_stringify rt ?notice)"
    by (rule payloads_broadcast)
  have "drop (length (wire st)) (wire (on_close rt ws name st)) =
      drop (length (wire st)) (wire (broadcastUserList rt ?st1))
      @ drop (length (wire ?st3)) (wire (broadcast rt ?notice ?st3))"
    unfolding w2 by (subst w1) simp
  then show "map payload (drop (length (wire st)) (wire (on_close rt ws name st))) =
       replicate (length (filter (\<lambda>e. fst e \<noteq> ws) (sessions st)))
         (JSON_stringify rt (UserListMessage (roster ?st1)))
       @ replicate (length (sessions (broadcastUserList rt ?st1))) (JSON_stringify rt ?notice)"
    using p1 p2 by simp
qed

text \<open>
  The error listener evicts the session and broadcasts the roster, and that is all: every
  text it sends is the \<open>userList\<close>.
\<close>

lemma error_signal_evicts_and_lists:
  "ws \<notin> fst ` set (sessions (on_error rt ws st))
   \<and> map payload (drop (length (wire st)) (wire (on_error rt ws st))) =
       replicate (length (filter (\<lambda>e. fst e \<noteq> ws) (sessions st)))
         (JSON_stringify rt
            (UserListMessage (roster (st\<lparr>sessions := filter (\<lambda>e. fst e \<noteq> ws) (sessions st)\<rparr>))))"
proof
  let ?st1 = "st\<lparr>sessions := filter (\<lambda>e. fst e \<noteq> ws) (sessions st)\<rparr>"
  have "fst ` set (sessions (on_error rt ws st)) \<subseteq> fst ` set (sessions ?st1)"
    unfolding on_error_eq broadcastUserList_def Let_def by (rule keys_of_broadcast)
  then show "ws \<notin> fst ` set (sessions (on_error rt ws st))"
    by auto
  show "map payload (drop (length (wire st)) (wire (on_error rt ws st))) =
       replicate (length (filter (\<lambda>e. fst e \<noteq> ws) (sessions st)))
         (JSON_stringify rt (UserListMessage (roster ?st1)))"
    using payloads_broadcast [of ?st1 rt "UserListMessage (roster ?st1)"]
    by (simp add: on_error_eq broadcastUserList_def)
qed

text \<open>
  Claim C2 holds of the close listener and fails of the error listener. In the lobby, the
  error signal on bob's socket evicts bob and sends alice the new roster, and nothing else:
  no message from \<open>System\<close> says that bob left the chat. The close signal in the same state
  sends both.
\<close>

theorem error_signal_sends_no_departure_notice:
  \<open>map fst (sessions (react sample_runtime lobby (Error 1))) = [0]
   \<and> map (\<lambda>c. (target c, payload c)) (wire (react sample_runtime lobby (Error 1))) =
       [(0, ''{"type":"userList","users":["alice"]}'')]
   \<and> map (\<lambda>c. (target c, payload c)) (wire (react sample_runtime lobby (Close 1))) =
       [(0, ''{"type":"userList","users":["alice"]}''),
        (0, ''{"type":"message","username":"System","text":"bob left the chat","timestamp":"2024-01-01T00:00:00.000Z"}'')]\<close>
  by (simp add: on_error_def on_close_def mark_quit_def broadcastUserList_def roster_def
      broadcast_def sweep_def Map_delete_def new_Date_def send_def sample_runtime_fields
      sample_clock_def ChatMessage_def UserListMessage_def quote_def lobby_def Let_def)

end
